theory Spec2Isabelle
  imports Complex_Main "HOL-Library.AList" "HOL-Library.Multiset"
begin

section \<open>Python values used by the Jeopardy bot\<close>

text \<open>
  Strings are byte lists. The helpers below follow the Python built-ins the handlers of
  \<^verbatim>\<open>src/jeopardy.py\<close> call, on ASCII input: \<^verbatim>\<open>str.lower\<close>, \<^verbatim>\<open>str.split\<close> without
  arguments, \<^verbatim>\<open>str.startswith\<close>, \<^verbatim>\<open>" ".join\<close> and \<^verbatim>\<open>int\<close> of a string (white space
  around, optional sign, decimal digits, single underscores between digits). Characters
  outside ASCII are left alone by \<open>py_lower\<close> and are never digits or white space here,
  while Python lower-cases the letters, splits at the spaces and reads the digits of all
  of Unicode: the helpers are the built-ins on ASCII strings, and a statement that
  depends on what they compute is made for such strings.
\<close>

datatype error = ValueError | TypeError | KeyError | IndexError

definition lower_char :: "char \<Rightarrow> char" where
  "lower_char c =
     (case map_of (zip ''ABCDEFGHIJKLMNOPQRSTUVWXYZ'' ''abcdefghijklmnopqrstuvwxyz'') c of
        None \<Rightarrow> c
      | Some l \<Rightarrow> l)"

definition py_lower :: "string \<Rightarrow> string" where
  "py_lower s = map lower_char s"

definition is_space :: "char \<Rightarrow> bool" where
  "is_space c =
     (let n = (of_char c :: nat) in (9 \<le> n \<and> n \<le> 13) \<or> (28 \<le> n \<and> n \<le> 32))"

fun split_acc :: "string \<Rightarrow> string \<Rightarrow> string list" where
  "split_acc cur [] = (if cur = [] then [] else [cur])"
| "split_acc cur (c # cs) =
     (if is_space c then (if cur = [] then split_acc [] cs else cur # split_acc [] cs)
      else split_acc (cur @ [c]) cs)"

definition py_split :: "string \<Rightarrow> string list" where
  "py_split s = split_acc [] s"

definition startswith :: "string \<Rightarrow> string \<Rightarrow> bool" where
  "startswith s p = (take (length p) s = p)"

fun join_sp :: "string list \<Rightarrow> string" where
  "join_sp [] = []"
| "join_sp [x] = x"
| "join_sp (x # y # ys) = x @ '' '' @ join_sp (y # ys)"

definition is_digit :: "char \<Rightarrow> bool" where
  "is_digit c = (let n = (of_char c :: nat) in 48 \<le> n \<and> n \<le> 57)"

definition digit_val :: "char \<Rightarrow> nat" where
  "digit_val c = (of_char c :: nat) - 48"

text \<open>
  \<open>parse_digits prev acc s\<close>: \<open>prev\<close> says that the character before was a digit, so that
  an underscore is accepted only between two digits.
\<close>

fun parse_digits :: "bool \<Rightarrow> nat \<Rightarrow> string \<Rightarrow> nat option" where
  "parse_digits prev acc [] = (if prev then Some acc else None)"
| "parse_digits prev acc (c # cs) =
     (if is_digit c then parse_digits True (10 * acc + digit_val c) cs
      else if c = CHR ''_'' \<and> prev then parse_digits False acc cs
      else None)"

text \<open>\<^verbatim>\<open>str.strip()\<close>, which \<^verbatim>\<open>int\<close> applies to its argument first.\<close>

definition py_strip :: "string \<Rightarrow> string" where
  "py_strip s = rev (dropWhile is_space (rev (dropWhile is_space s)))"

text \<open>
  \<^verbatim>\<open>int(s)\<close>: \<open>None\<close> is the \<^verbatim>\<open>ValueError\<close> every caller catches. A string of more than
  4300 digits is refused with that error too (the default limit of the interpreter on
  the conversion of strings to integers; the sign and the underscores do not count).
\<close>

definition py_int :: "string \<Rightarrow> int option" where
  "py_int s =
     (let t = py_strip s in
      if length (filter is_digit t) > 4300 then None
      else case t of
        [] \<Rightarrow> None
      | c # cs \<Rightarrow>
          if c = CHR ''-'' then map_option (\<lambda>n. - int n) (parse_digits False 0 cs)
          else if c = CHR ''+'' then map_option int (parse_digits False 0 cs)
          else map_option int (parse_digits False 0 t))"

text \<open>
  The strings on which the helpers above are the Python built-ins: those of ASCII
  characters only.
\<close>

definition ascii_string :: "string \<Rightarrow> bool" where
  "ascii_string s = list_all (\<lambda>c. (of_char c :: nat) < 128) s"

text \<open>
  A \<^verbatim>\<open>dict\<close> whose iteration order matters (the score table is sorted with a stable sort)
  is an association list with distinct keys in insertion order: \<open>map_of\<close> reads it and
  \<open>AList.update\<close> writes it, keeping the place of a key that is present and appending a new
  one.
\<close>

definition dict_get :: "('k \<times> 'v) list \<Rightarrow> 'k \<Rightarrow> 'v \<Rightarrow> 'v" where
  "dict_get d k dflt = (case map_of d k of None \<Rightarrow> dflt | Some v \<Rightarrow> v)"

definition setdefault :: "('k \<times> 'v) list \<Rightarrow> 'k \<Rightarrow> 'v \<Rightarrow> ('k \<times> 'v) list" where
  "setdefault d k v = (if map_of d k = None then AList.update k v d else d)"

text \<open>\<^verbatim>\<open>{k: ... for k in xs}\<close> keeps one entry per key, in the order of first occurrence.\<close>

definition dict_keys :: "'a list \<Rightarrow> 'a list" where
  "dict_keys xs = fold (\<lambda>x acc. if x \<in> set acc then acc else acc @ [x]) xs []"

text \<open>
  \<^verbatim>\<open>sorted(d.items(), key=lambda x: x[1], reverse=True)\<close>: Python's sort is stable also
  with \<^verbatim>\<open>reverse=True\<close>, so it is the stable sort on the negated score.
\<close>

definition sorted_by_score_desc :: "('k \<times> int) list \<Rightarrow> ('k \<times> int) list" where
  "sorted_by_score_desc items = sort_key (\<lambda>x. - snd x) items"

section \<open>The game object\<close>

text \<open>
  A question of the corpus; \<open>points\<close> is \<^verbatim>\<open>int(q['points'])\<close>, which is how every reader of
  the field takes it. The code compares whole entries (\<^verbatim>\<open>q not in board\<close>,
  \<^verbatim>\<open>board.remove\<close>); here two entries are the same question when these four fields
  agree, so the corpus is taken to have no two entries that differ only in the way the
  points are written or in another key.
\<close>

record question =
  category_id :: string
  points :: int
  question_text :: string
  answers :: "string list"

text \<open>
  A user is the integer id the chat delivers; \<^verbatim>\<open>uid = str(user_id)\<close> is one-to-one on
  integers, so the score table and the registration list are keyed by the id itself.
\<close>

type_synonym user = int

text \<open>
  \<^verbatim>\<open>JeopardyGame\<close>: the keys of \<^verbatim>\<open>self.state\<close>, then the corpus (\<^verbatim>\<open>self.questions\<close>,
  \<^verbatim>\<open>self.categories\<close>, read from the two JSON files), then the \<^verbatim>\<open>buzz_timeout\<close> threads
  that \<^verbatim>\<open>post_question\<close> has started and that are still asleep, each with the question it
  was started for.
\<close>

record game =
  running :: bool
  round_no :: int
  scores :: "(user \<times> int) list"
  final_registered :: "user list"
  final_answers :: "(user \<times> string) list"
  answered_users :: "user set"
  daily_doubles :: "(string \<times> int) set"
  daily_double_used :: "(string \<times> int) set"
  buzzed_in :: "user option"
  buzzed_in_time :: real
  current_question :: "question option"
  current_chooser :: "user option"
  categories :: "string list"
  board :: "question list"
  buzzed :: "user list"
  buzz_open :: bool
  questions :: "question list"
  corpus_categories :: "string list"
  pending_timeouts :: "question list"

definition JeopardyGame_init :: "question list \<Rightarrow> string list \<Rightarrow> game" where
  "JeopardyGame_init qs cats =
     \<lparr> running = False, round_no = 1, scores = [], final_registered = [],
       final_answers = [], answered_users = {}, daily_doubles = {},
       daily_double_used = {}, buzzed_in = None, buzzed_in_time = 0,
       current_question = None, current_chooser = None, categories = [], board = [],
       buzzed = [], buzz_open = False, questions = qs, corpus_categories = cats,
       pending_timeouts = [] \<rparr>"

text \<open>
  The board as \<^verbatim>\<open>display_board\<close> prints it: for every category of the game, the cells
  \<open>(points, used)\<close> of all corpus questions of that category, sorted by points. The text
  prints a cross for a used cell and \<^verbatim>\<open>$points\<close> for the others.
\<close>

type_synonym board_view = "(string \<times> (int \<times> bool) list) list"

text \<open>
  What the bot sends. The text of each message is fixed by its constructor and the values
  it carries; rejections go to the caller's own chat, announcements to the main channel.
\<close>

datatype notice =
    GameStarted
  | BoardMsg board_view
  | AlreadyRunning
  | NoGameRunning
  | UsageChoose
  | InvalidPointValue
  | InvalidCategory
  | DailyDoubleMsg
  | QuestionMsg question
  | NoQuestionFound
  | BuzzTimeUp "string list"
  | BuzzedInMsg user
  | BuzzRejected
  | DidntBuzz
  | TimesUp
  | CorrectMsg user int
  | IncorrectMsg user int
  | NoActiveDailyDouble
  | UsageDailyDouble
  | InvalidWager
  | ScoresMsg "(user \<times> int) list"
  | NeedOneDollar
  | RegisteredMsg int
  | AlreadyRegistered
  | FinalStarting
  | NoOneRegistered
  | FinalQuestionMsg user question
  | FinalRight user int
  | FinalWrong user int
  | FinalScores "(user \<times> int) list"

section \<open>JeopardyGame\<close>

text \<open>
  \<^verbatim>\<open>setup_board\<close>. The random draws are arguments: \<open>idxs\<close> are the positions
  \<^verbatim>\<open>random.sample(self.categories, 6)\<close> picked, and \<open>pick i pts\<close> is the call of
  \<^verbatim>\<open>random.choice\<close> for the \<open>i\<close>-th chosen category and the point value \<open>pts\<close>.
  \<^verbatim>\<open>random.sample\<close> raises \<^verbatim>\<open>ValueError\<close> on fewer than six categories.
\<close>

type_synonym choice = "nat \<Rightarrow> int \<Rightarrow> question list \<Rightarrow> question"

definition valid_sample :: "nat list \<Rightarrow> string list \<Rightarrow> bool" where
  "valid_sample idxs cats =
     (length idxs = 6 \<and> distinct idxs \<and> list_all (\<lambda>i. i < length cats) idxs)"

definition valid_choice :: "choice \<Rightarrow> bool" where
  "valid_choice pick = (\<forall>i pts qs. qs \<noteq> [] \<longrightarrow> pick i pts qs \<in> set qs)"

definition select_category ::
  "(int \<Rightarrow> question list \<Rightarrow> question) \<Rightarrow> question list \<Rightarrow> string \<Rightarrow> question list" where
  "select_category pick_pts all_qs cat =
     (let qs = filter (\<lambda>q. category_id q = cat) all_qs;
          unique_points = sort (remdups (map points qs))
      in map (\<lambda>pts. pick_pts pts (filter (\<lambda>q. points q = pts) qs))
           (filter (\<lambda>pts. filter (\<lambda>q. points q = pts) qs \<noteq> []) unique_points))"

definition setup_board :: "nat list \<Rightarrow> choice \<Rightarrow> game \<Rightarrow> error + game" where
  "setup_board idxs pick g =
     (if length (corpus_categories g) < 6 then Inl ValueError
      else
        let chosen_categories = map (\<lambda>i. corpus_categories g ! i) idxs
        in Inr (g\<lparr>categories := chosen_categories,
                  board := concat (map (\<lambda>(i, cat). select_category (pick i) (questions g) cat)
                                     (enumerate 0 chosen_categories))\<rparr>))"

definition display_board :: "game \<Rightarrow> board_view" where
  "display_board g =
     map (\<lambda>cat. (cat,
            sort_key fst
              (map (\<lambda>q. (points q, q \<notin> set (board g)))
                 (filter (\<lambda>q. category_id q = cat) (questions g)))))
       (dict_keys (categories g))"

text \<open>\<^verbatim>\<open>post_question\<close>: it also starts the \<^verbatim>\<open>buzz_timeout\<close> thread for the question.\<close>

definition post_question :: "question \<Rightarrow> game \<Rightarrow> game \<times> notice list" where
  "post_question question_obj g =
     (g\<lparr>current_question := Some question_obj, buzzed := [], buzz_open := True,
        pending_timeouts := pending_timeouts g @ [question_obj]\<rparr>,
      [QuestionMsg question_obj])"

text \<open>
  The body of \<^verbatim>\<open>buzz_timeout\<close> after its ten seconds of sleep.
  \<^verbatim>\<open>not self.state['buzzed_in']\<close> is Python truth: \<^verbatim>\<open>None\<close> and the id 0 are both false.
\<close>

definition truthy_user :: "user option \<Rightarrow> bool" where
  "truthy_user u = (case u of None \<Rightarrow> False | Some n \<Rightarrow> n \<noteq> 0)"

definition buzz_timeout :: "question \<Rightarrow> game \<Rightarrow> game \<times> notice list" where
  "buzz_timeout question_obj g =
     (if \<not> truthy_user (buzzed_in g) \<and> buzz_open g then
        let g1 = g\<lparr>buzz_open := False\<rparr>;
            g2 = (if question_obj \<in> set (board g1)
                  then g1\<lparr>board := remove1 question_obj (board g1)\<rparr> else g1);
            g3 = g2\<lparr>current_question := None\<rparr>
        in (g3, [BuzzTimeUp (answers question_obj), BoardMsg (display_board g3)])
      else (g, []))"

section \<open>JeopardyBot: the command handlers\<close>

definition handle_start_jeopardy ::
  "nat list \<Rightarrow> choice \<Rightarrow> game \<Rightarrow> error + game \<times> notice list" where
  "handle_start_jeopardy idxs pick g =
     (if \<not> running g then
        let g1 = g\<lparr>running := True, round_no := 1, scores := [], final_registered := [],
                   final_answers := [], answered_users := {}, daily_doubles := {},
                   buzzed_in := None, buzzed_in_time := 0, current_question := None,
                   current_chooser := None\<rparr>
        in (case setup_board idxs pick g1 of
              Inl e \<Rightarrow> Inl e
            | Inr g2 \<Rightarrow> Inr (g2, [GameStarted, BoardMsg (display_board g2)]))
      else Inr (g, [AlreadyRunning]))"

text \<open>
  \<^verbatim>\<open>handle_choose_question\<close>: \<open>command\<close> are the words of the lower-cased message,
  \<open>command2\<close> the words of the message as typed, \<open>rnd\<close> is the value of
  \<^verbatim>\<open>random.random()\<close>.
\<close>

definition handle_choose_question ::
  "string list \<Rightarrow> string list \<Rightarrow> user \<Rightarrow> real \<Rightarrow> game \<Rightarrow> game \<times> notice list" where
  "handle_choose_question command command2 user_id rnd g =
     (if \<not> running g then (g, [NoGameRunning])
      else if length command < 3 then (g, [UsageChoose])
      else case py_int (command ! 1) of
        None \<Rightarrow> (g, [InvalidPointValue])
      | Some pts \<Rightarrow>
          let category = join_sp (drop 2 command2) in
          if category \<notin> set (categories g) then (g, [InvalidCategory])
          else case find (\<lambda>q. category_id q = category \<and> points q = pts) (board g) of
            None \<Rightarrow> (g, [NoQuestionFound])
          | Some q \<Rightarrow>
              if rnd < 0.1 \<and> (category, pts) \<notin> daily_double_used g then
                (g\<lparr>daily_double_used := insert (category, pts) (daily_double_used g),
                   current_question := Some q\<rparr>, [DailyDoubleMsg])
              else post_question q g)"

text \<open>\<^verbatim>\<open>handle_buzz\<close>: \<open>now\<close> is the value of \<^verbatim>\<open>time.time()\<close>.\<close>

definition handle_buzz :: "user \<Rightarrow> real \<Rightarrow> game \<Rightarrow> game \<times> notice list" where
  "handle_buzz user_id now g =
     (if buzzed_in g = None \<and> current_question g \<noteq> None then
        (g\<lparr>buzzed_in := Some user_id, buzzed_in_time := now\<rparr>, [BuzzedInMsg user_id])
      else (g, [BuzzRejected]))"

text \<open>
  \<^verbatim>\<open>handle_answer\<close>: with no current question, subscripting \<^verbatim>\<open>None\<close> raises
  \<^verbatim>\<open>TypeError\<close> before anything is written.
\<close>

definition handle_answer ::
  "string list \<Rightarrow> user \<Rightarrow> real \<Rightarrow> game \<Rightarrow> error + game \<times> notice list" where
  "handle_answer command2 user_id now g =
     (if Some user_id \<noteq> buzzed_in g then Inr (g, [DidntBuzz])
      else if now - buzzed_in_time g > 20 then
        (let g1 = g\<lparr>buzzed_in := None\<rparr> in Inr (g1, [TimesUp, BoardMsg (display_board g1)]))
      else case current_question g of
        None \<Rightarrow> Inl TypeError
      | Some q \<Rightarrow>
          let answer_text = py_lower (join_sp (drop 1 command2));
              correct_answers = map py_lower (answers q);
              uid = user_id;
              pts = points q;
              sc = setdefault (scores g) uid 0
          in if answer_text \<in> set correct_answers then
               (let g1 = g\<lparr>scores := AList.update uid (dict_get sc uid 0 + pts) sc,
                           current_chooser := Some user_id, current_question := None\<rparr>
                in Inr (g1, [CorrectMsg user_id pts, BoardMsg (display_board g1)]))
             else
               (let g1 = g\<lparr>scores := AList.update uid (dict_get sc uid 0 - pts) sc,
                           buzzed_in := None\<rparr>
                in Inr (g1, [IncorrectMsg user_id pts, BoardMsg (display_board g1)])))"

definition handle_daily_double :: "string list \<Rightarrow> user \<Rightarrow> game \<Rightarrow> game \<times> notice list" where
  "handle_daily_double parts user_id g =
     (case current_question g of
        None \<Rightarrow> (g, [NoActiveDailyDouble])
      | Some q \<Rightarrow>
          if length parts < 2 then (g, [UsageDailyDouble])
          else case py_int (parts ! 0) of
            None \<Rightarrow> (g, [InvalidWager])
          | Some w \<Rightarrow>
              let uid = user_id;
                  score = dict_get (scores g) uid 0;
                  wager = max 1 (min w (max score (if round_no g = 1 then 1000 else 2000)));
                  answer_text = py_lower (join_sp (drop 1 parts));
                  correct_answers = map py_lower (answers q);
                  sc = setdefault (scores g) uid 0
              in if answer_text \<in> set correct_answers then
                   (let g1 = g\<lparr>scores := AList.update uid (dict_get sc uid 0 + wager) sc,
                               current_question := None\<rparr>
                    in (g1, [CorrectMsg user_id wager, BoardMsg (display_board g1)]))
                 else
                   (let g1 = g\<lparr>scores := AList.update uid (dict_get sc uid 0 - wager) sc,
                               current_question := None\<rparr>
                    in (g1, [IncorrectMsg user_id wager, BoardMsg (display_board g1)])))"

definition handle_score :: "game \<Rightarrow> game \<times> notice list" where
  "handle_score g = (g, [ScoresMsg (sorted_by_score_desc (scores g))])"

definition handle_register :: "user \<Rightarrow> game \<Rightarrow> game \<times> notice list" where
  "handle_register user_id g =
     (let uid = user_id; score = dict_get (scores g) uid 0
      in if score < 1 then (g, [NeedOneDollar])
         else if uid \<notin> set (final_registered g) then
           (g\<lparr>final_registered := final_registered g @ [uid]\<rparr>, [RegisteredMsg score])
         else (g, [AlreadyRegistered]))"

text \<open>
  \<^verbatim>\<open>start_final_jeopardy\<close>. What the chat returns is an argument: \<open>last_message uid\<close>
  is the last message of the private chat with \<open>uid\<close> when the two minutes are over, and
  \<open>final_q\<close> is the question \<^verbatim>\<open>random.choice(self.game.questions)\<close> drew. The two waits
  are not modelled: the function runs as one step on the state it finds.

  \<open>final_reply\<close> is the chain of \<^verbatim>\<open>continue\<close> tests at the head of the second loop: it
  gives the wager as typed and the lower-cased answer, or \<open>None\<close> where the loop skips the
  user.
\<close>

definition final_reply :: "string \<Rightarrow> (int \<times> string) option" where
  "final_reply msg =
     (if \<not> startswith msg ''!finaljeopardy'' then None
      else
        let parts = py_split msg in
        if length parts < 3 then None
        else case py_int (parts ! 1) of
          None \<Rightarrow> None
        | Some wager \<Rightarrow>
            if wager \<le> 0 then None
            else Some (wager, py_lower (join_sp (drop 2 parts))))"

text \<open>
  One round of the second loop. \<^verbatim>\<open>self.game.state['scores'][uid] += wager\<close> raises
  \<^verbatim>\<open>KeyError\<close> for a user without an entry in the score table.
\<close>

definition final_user :: "question \<Rightarrow> string \<Rightarrow> user \<Rightarrow> game \<Rightarrow> error + game \<times> notice list" where
  "final_user final_q msg uid g =
     (case final_reply msg of
        None \<Rightarrow> Inr (g, [])
      | Some (typed, answer_text) \<Rightarrow>
          let correct_answers = map py_lower (answers final_q);
              user_score = dict_get (scores g) uid 0;
              wager = (if typed > user_score then user_score else typed)
          in if map_of (scores g) uid = None then Inl KeyError
             else if answer_text \<in> set correct_answers then
               Inr (g\<lparr>scores := AList.update uid (user_score + wager) (scores g)\<rparr>,
                    [FinalRight uid wager])
             else
               Inr (g\<lparr>scores := AList.update uid (user_score - wager) (scores g)\<rparr>,
                    [FinalWrong uid wager]))"

fun final_loop ::
  "question \<Rightarrow> (user \<Rightarrow> string) \<Rightarrow> user list \<Rightarrow> game \<Rightarrow> error + game \<times> notice list" where
  "final_loop final_q last_message [] g = Inr (g, [])"
| "final_loop final_q last_message (uid # rest) g =
     (case final_user final_q (last_message uid) uid g of
        Inl e \<Rightarrow> Inl e
      | Inr (g1, ns1) \<Rightarrow>
          (case final_loop final_q last_message rest g1 of
             Inl e \<Rightarrow> Inl e
           | Inr (g2, ns2) \<Rightarrow> Inr (g2, ns1 @ ns2)))"

definition start_final_jeopardy ::
  "question \<Rightarrow> (user \<Rightarrow> string) \<Rightarrow> game \<Rightarrow> error + game \<times> notice list" where
  "start_final_jeopardy final_q last_message g =
     (if final_registered g = [] then Inr (g, [FinalStarting, NoOneRegistered])
      else if questions g = [] then Inl IndexError
      else
        let g1 = g\<lparr>current_question := Some final_q\<rparr>
        in case final_loop final_q last_message (final_registered g1) g1 of
             Inl e \<Rightarrow> Inl e
           | Inr (g2, ns) \<Rightarrow>
               Inr (g2\<lparr>running := False\<rparr>,
                    [FinalStarting]
                    @ map (\<lambda>uid. FinalQuestionMsg uid final_q) (final_registered g1)
                    @ ns
                    @ [FinalScores (sorted_by_score_desc (scores g2))]))"

text \<open>
  \<^verbatim>\<open>check_for_commands\<close>, the one caller of the handlers: it cuts the first character
  off the message and hands the words to the handler, the command word first. The clock
  and the random draws are arguments as before.
\<close>

definition check_for_commands ::
  "string \<Rightarrow> user \<Rightarrow> real \<Rightarrow> real \<Rightarrow> nat list \<Rightarrow> choice \<Rightarrow> game \<Rightarrow> error + game \<times> notice list" where
  "check_for_commands msg_text_tall user_id now rnd idxs pick g =
     (let msg_text = py_lower msg_text_tall;
          command = py_split (drop 1 msg_text);
          command2 = py_split (drop 1 msg_text_tall)
      in if startswith msg_text ''!startjeopardy'' then handle_start_jeopardy idxs pick g
         else if startswith msg_text ''!choose'' then
           Inr (handle_choose_question command command2 user_id rnd g)
         else if startswith msg_text ''!buzz'' then Inr (handle_buzz user_id now g)
         else if startswith msg_text ''!answer'' then handle_answer command2 user_id now g
         else if startswith msg_text ''!dailydouble'' then
           Inr (handle_daily_double command2 user_id g)
         else if startswith msg_text ''!score'' then Inr (handle_score g)
         else if startswith msg_text ''!register'' then Inr (handle_register user_id g)
         else Inr (g, []))"

section \<open>Runs of the bot\<close>

text \<open>
  What can happen to the game: a command arrives, a \<^verbatim>\<open>buzz_timeout\<close> thread wakes up
  (\<open>BuzzTimeout i\<close> is the \<open>i\<close>-th thread still asleep), or the final round is run. Each
  event carries what the handler reads from outside: the words of the message, the
  caller, the clock, the random draws.
\<close>

datatype event =
    StartJeopardy "nat list" choice
  | Choose "string list" "string list" user real
  | Buzz user real
  | Answer "string list" user real
  | DailyDouble "string list" user
  | Score
  | Register user
  | BuzzTimeout nat
  | FinalJeopardy question "user \<Rightarrow> string"

fun step :: "event \<Rightarrow> game \<Rightarrow> error + game \<times> notice list" where
  "step (StartJeopardy idxs pick) g = handle_start_jeopardy idxs pick g"
| "step (Choose command command2 user_id rnd) g =
     Inr (handle_choose_question command command2 user_id rnd g)"
| "step (Buzz user_id now) g = Inr (handle_buzz user_id now g)"
| "step (Answer command2 user_id now) g = handle_answer command2 user_id now g"
| "step (DailyDouble parts user_id) g = Inr (handle_daily_double parts user_id g)"
| "step Score g = Inr (handle_score g)"
| "step (Register user_id) g = Inr (handle_register user_id g)"
| "step (BuzzTimeout i) g =
     (if i < length (pending_timeouts g) then
        Inr (buzz_timeout (pending_timeouts g ! i)
               (g\<lparr>pending_timeouts :=
                    take i (pending_timeouts g) @ drop (Suc i) (pending_timeouts g)\<rparr>))
      else Inr (g, []))"
| "step (FinalJeopardy final_q last_message) g = start_final_jeopardy final_q last_message g"

text \<open>The draws an event carries are draws the random generator can make.\<close>

fun valid_event :: "game \<Rightarrow> event \<Rightarrow> bool" where
  "valid_event g (StartJeopardy idxs pick) =
     (valid_sample idxs (corpus_categories g) \<and> valid_choice pick)"
| "valid_event g (Choose command command2 user_id rnd) = (0 \<le> rnd \<and> rnd < 1)"
| "valid_event g (FinalJeopardy final_q last_message) = (final_q \<in> set (questions g))"
| "valid_event g e = True"

text \<open>
  A run stops at the first exception (it leaves the message loop); the notices of the
  events are collected in order.
\<close>

fun run :: "event list \<Rightarrow> game \<Rightarrow> error + game \<times> notice list" where
  "run [] g = Inr (g, [])"
| "run (e # es) g =
     (case step e g of
        Inl err \<Rightarrow> Inl err
      | Inr (g1, ns1) \<Rightarrow>
          (case run es g1 of
             Inl err \<Rightarrow> Inl err
           | Inr (g2, ns2) \<Rightarrow> Inr (g2, ns1 @ ns2)))"

inductive reachable :: "question list \<Rightarrow> string list \<Rightarrow> game \<Rightarrow> bool"
  for qs :: "question list" and cats :: "string list" where
  reachable_init: "reachable qs cats (JeopardyGame_init qs cats)"
| reachable_step:
    "reachable qs cats g \<Longrightarrow> valid_event g e \<Longrightarrow> step e g = Inr (g', ns)
     \<Longrightarrow> reachable qs cats g'"

fun valid_run :: "event list \<Rightarrow> game \<Rightarrow> bool" where
  "valid_run [] g = True"
| "valid_run (e # es) g =
     (valid_event g e \<and>
      (case step e g of Inl err \<Rightarrow> False | Inr (g1, ns) \<Rightarrow> valid_run es g1))"

definition state_after :: "event list \<Rightarrow> game \<Rightarrow> game" where
  "state_after es g = (case run es g of Inl err \<Rightarrow> g | Inr (g1, ns) \<Rightarrow> g1)"

section \<open>The question sub-state-machine of the specification\<close>

text \<open>
  The three alternatives of the specification's round context, in its words: no active
  question; an active question with the buzz window open and nobody buzzed in; an active
  question with a buzzed-in user and the buzz window closed.
\<close>

definition no_active_question :: "game \<Rightarrow> bool" where
  "no_active_question g = (current_question g = None)"

definition buzz_open_state :: "game \<Rightarrow> bool" where
  "buzz_open_state g = (current_question g \<noteq> None \<and> buzz_open g \<and> buzzed_in g = None)"

definition locked_state :: "game \<Rightarrow> bool" where
  "locked_state g = (current_question g \<noteq> None \<and> buzzed_in g \<noteq> None \<and> \<not> buzz_open g)"

definition count_true :: "bool list \<Rightarrow> nat" where
  "count_true bs = length (filter (\<lambda>b. b) bs)"

definition exactly_one_substate :: "game \<Rightarrow> bool" where
  "exactly_one_substate g =
     (count_true [no_active_question g, buzz_open_state g, locked_state g] = 1)"

definition at_most_one_substate :: "game \<Rightarrow> bool" where
  "at_most_one_substate g =
     (count_true [no_active_question g, buzz_open_state g, locked_state g] \<le> 1)"

section \<open>A small game\<close>

text \<open>
  A corpus of one question and six categories, and the events of a game on it: the
  concrete inputs of the evaluations below.
\<close>

definition tile :: question where
  "tile = \<lparr>category_id = ''A'', points = 100, question_text = ''Capital of France?'',
            answers = [''Paris'']\<rparr>"

definition example_categories :: "string list" where
  "example_categories = [''A'', ''B'', ''C'', ''D'', ''E'', ''F'']"

definition example_game :: game where
  "example_game = JeopardyGame_init [tile] example_categories"

definition ev_start :: event where
  "ev_start = StartJeopardy [0, 1, 2, 3, 4, 5] (\<lambda>i pts. hd)"

definition ev_choose :: "real \<Rightarrow> event" where
  "ev_choose rnd = Choose [''choose'', ''100'', ''a''] [''choose'', ''100'', ''A''] 7 rnd"

section \<open>Notions used by the claims\<close>

text \<open>The outcome of a handler, with the \<open>running\<close> flag of the resulting state set.\<close>

definition with_running :: "bool \<Rightarrow> game \<times> notice list \<Rightarrow> game \<times> notice list" where
  "with_running b r = ((fst r)\<lparr>running := b\<rparr>, snd r)"

text \<open>
  Every registered user is registered once and has an entry in the score table (the
  registration asks for a score of at least 1).
\<close>

definition registered_have_scores :: "game \<Rightarrow> bool" where
  "registered_have_scores g =
     (distinct (final_registered g) \<and> list_all (\<lambda>u. map_of (scores g) u \<noteq> None) (final_registered g))"

text \<open>
  The final round of the specification, in its words. A reply is a well-formed wager
  command with a positive integer wager when it starts with the command, has at least
  the three words command, wager and answer, and its second word is an integer above
  zero; \<open>well_formed_wager\<close> gives that wager. A registered user with score \<open>s\<close> whose
  last private message is \<open>msg\<close> ends with \<open>final_score_spec\<close>: any other reply, or
  none, forfeits (no change); otherwise the wager, clamped to \<open>s\<close> when it exceeds it, is
  credited when the rest of the reply is one of the accepted answers, letter case set
  aside, and debited when it is not.
\<close>

definition well_formed_wager :: "string \<Rightarrow> int option" where
  "well_formed_wager msg =
     (if startswith msg ''!finaljeopardy'' \<and> 3 \<le> length (py_split msg) then
        (case py_int (py_split msg ! 1) of
           None \<Rightarrow> None
         | Some w \<Rightarrow> if 0 < w then Some w else None)
      else None)"

definition final_score_spec :: "question \<Rightarrow> string \<Rightarrow> int \<Rightarrow> int" where
  "final_score_spec final_q msg s =
     (case well_formed_wager msg of
        None \<Rightarrow> s
      | Some w \<Rightarrow>
          let wager = (if w > s then s else w)
          in if py_lower (join_sp (drop 2 (py_split msg))) \<in> set (map py_lower (answers final_q))
             then s + wager else s - wager)"

text \<open>A list of scored users in descending order of score.\<close>

definition descending_by_score :: "(user \<times> int) list \<Rightarrow> bool" where
  "descending_by_score lb = sorted_wrt (\<lambda>x y. snd y \<le> snd x) lb"

section \<open>Evaluation and basic facts\<close>

lemmas string_defs = py_int_def py_strip_def is_digit_def digit_val_def py_lower_def
  lower_char_def py_split_def is_space_def startswith_def ascii_string_def

lemmas dict_defs = dict_get_def setdefault_def dict_keys_def sorted_by_score_desc_def

lemmas handler_defs = handle_start_jeopardy_def setup_board_def select_category_def
  display_board_def handle_choose_question_def post_question_def handle_buzz_def
  handle_answer_def handle_daily_double_def handle_register_def handle_score_def
  buzz_timeout_def truthy_user_def start_final_jeopardy_def final_user_def final_reply_def

lemmas example_defs = example_game_def example_categories_def tile_def JeopardyGame_init_def
  ev_start_def ev_choose_def state_after_def valid_sample_def valid_choice_def

lemmas substate_defs = no_active_question_def buzz_open_state_def locked_state_def
  count_true_def exactly_one_substate_def at_most_one_substate_def

lemma run_reachable:
  "reachable qs cats g \<Longrightarrow> valid_run es g \<Longrightarrow> run es g = Inr (g', ns)
   \<Longrightarrow> reachable qs cats g'"
proof (induction es arbitrary: g ns)
  case Nil
  then show ?case by simp
next
  case (Cons e es)
  from Cons.prems(2) obtain g1 ns1 where
    st: "step e g = Inr (g1, ns1)" and ve: "valid_event g e" and vr: "valid_run es g1"
    by (auto split: sum.splits)
  from Cons.prems(3) st obtain ns2 where r: "run es g1 = Inr (g', ns2)"
    by (auto split: sum.splits)
  have "reachable qs cats g1"
    using Cons.prems(1) ve st by (rule reachable_step)
  then show ?case using vr r by (rule Cons.IH)
qed

lemma state_after_reachable:
  assumes "reachable qs cats g" and "valid_run es g" and "\<And>e. run es g \<noteq> Inl e"
  shows "reachable qs cats (state_after es g)"
proof -
  obtain g' ns where r: "run es g = Inr (g', ns)"
    using assms(3) by (cases "run es g") auto
  then have "state_after es g = g'" by (simp add: state_after_def)
  then show ?thesis using run_reachable [OF assms(1,2) r] by simp
qed

lemma dict_get_update_same: "dict_get (AList.update k v d) k dflt = v"
  by (simp add: dict_get_def update_conv')

lemma dict_get_update_other: "k' \<noteq> k \<Longrightarrow> dict_get (AList.update k v d) k' dflt = dict_get d k' dflt"
  by (simp add: dict_get_def update_conv')

lemma dict_get_setdefault: "dict_get (setdefault d k dflt) k' dflt = dict_get d k' dflt"
  by (simp add: dict_get_def setdefault_def update_conv')

lemma handle_answer_correct:
  assumes "buzzed_in g = Some u" and "\<not> now - buzzed_in_time g > 20"
    and "current_question g = Some q"
    and "py_lower (join_sp (drop 1 command2)) \<in> set (map py_lower (answers q))"
  shows "handle_answer command2 u now g =
           Inr (g\<lparr>scores := AList.update u (dict_get (scores g) u 0 + points q)
                                (setdefault (scores g) u 0),
                  current_chooser := Some u, current_question := None\<rparr>,
                [CorrectMsg u (points q), BoardMsg (display_board g)])"
  using assms by (simp add: handle_answer_def Let_def dict_get_setdefault display_board_def)

lemma handle_daily_double_resolved:
  assumes "current_question g = Some q" and "2 \<le> length parts"
    and "py_int (parts ! 0) = Some w"
  shows "handle_daily_double parts u g =
    (let wager = max 1 (min w (max (dict_get (scores g) u 0) (if round_no g = 1 then 1000 else 2000)))
     in if py_lower (join_sp (drop 1 parts)) \<in> set (map py_lower (answers q))
        then (g\<lparr>scores := AList.update u (dict_get (scores g) u 0 + wager) (setdefault (scores g) u 0),
                current_question := None\<rparr>,
              [CorrectMsg u wager, BoardMsg (display_board g)])
        else (g\<lparr>scores := AList.update u (dict_get (scores g) u 0 - wager) (setdefault (scores g) u 0),
                current_question := None\<rparr>,
              [IncorrectMsg u wager, BoardMsg (display_board g)]))"
  using assms
  by (simp add: handle_daily_double_def Let_def dict_get_setdefault display_board_def)

lemma handle_start_jeopardy_keeps_daily_double_used:
  "handle_start_jeopardy idxs pick g = Inr (g', ns) \<Longrightarrow> daily_double_used g' = daily_double_used g"
  by (auto simp: handle_start_jeopardy_def setup_board_def Let_def split: if_splits)

lemma handle_choose_question_frame:
  "buzzed_in (fst (handle_choose_question c c' v rnd g)) = buzzed_in g \<and>
   buzzed_in_time (fst (handle_choose_question c c' v rnd g)) = buzzed_in_time g \<and>
   scores (fst (handle_choose_question c c' v rnd g)) = scores g \<and>
   final_registered (fst (handle_choose_question c c' v rnd g)) = final_registered g"
  by (simp add: handle_choose_question_def post_question_def Let_def split: option.splits)

lemma final_user_frame:
  assumes "final_user fq msg uid g = Inr (g1, ns)"
  shows "g1 = g\<lparr>scores := scores g1\<rparr>"
    and "(map_of (scores g1) u \<noteq> None) = (map_of (scores g) u \<noteq> None)"
    and "u \<noteq> uid \<Longrightarrow> dict_get (scores g1) u 0 = dict_get (scores g) u 0"
  using assms
  by (auto simp: final_user_def Let_def update_conv' dict_get_update_other
      split: option.splits if_splits)

lemma final_user_self:
  assumes "map_of (scores g) uid \<noteq> None"
  shows "\<exists>g1 ns. final_user fq msg uid g = Inr (g1, ns) \<and>
           dict_get (scores g1) uid 0 = final_score_spec fq msg (dict_get (scores g) uid 0)"
  using assms
  by (auto simp: final_user_def final_reply_def final_score_spec_def well_formed_wager_def
      Let_def dict_get_update_same split: option.splits)

lemma final_loop_result:
  assumes "distinct us" and "\<forall>u \<in> set us. map_of (scores g) u \<noteq> None"
  shows "\<exists>g' ns. final_loop fq lm us g = Inr (g', ns) \<and>
           g' = g\<lparr>scores := scores g'\<rparr> \<and>
           (\<forall>u. (map_of (scores g') u \<noteq> None) = (map_of (scores g) u \<noteq> None)) \<and>
           (\<forall>u. u \<notin> set us \<longrightarrow> dict_get (scores g') u 0 = dict_get (scores g) u 0) \<and>
           (\<forall>u \<in> set us. dict_get (scores g') u 0 =
               final_score_spec fq (lm u) (dict_get (scores g) u 0))"
  using assms
proof (induction us arbitrary: g)
  case Nil
  then show ?case by simp
next
  case (Cons uid rest)
  from Cons.prems have k: "map_of (scores g) uid \<noteq> None" by simp
  from final_user_self [OF k, of fq "lm uid"] obtain g1 ns1 where
    fu: "final_user fq (lm uid) uid g = Inr (g1, ns1)" and
    s1: "dict_get (scores g1) uid 0 = final_score_spec fq (lm uid) (dict_get (scores g) uid 0)"
    by blast
  note fr = final_user_frame [OF fu]
  have d: "distinct rest" and nin: "uid \<notin> set rest" using Cons.prems(1) by simp_all
  have "\<forall>u \<in> set rest. map_of (scores g1) u \<noteq> None"
    using Cons.prems(2) fr(2) by simp
  from Cons.IH [OF d this] obtain g' ns where
    fl: "final_loop fq lm rest g1 = Inr (g', ns)" and
    e: "g' = g1\<lparr>scores := scores g'\<rparr>" and
    ks: "\<forall>u. (map_of (scores g') u \<noteq> None) = (map_of (scores g1) u \<noteq> None)" and
    others: "\<forall>u. u \<notin> set rest \<longrightarrow> dict_get (scores g') u 0 = dict_get (scores g1) u 0" and
    mine: "\<forall>u \<in> set rest. dict_get (scores g') u 0 =
               final_score_spec fq (lm u) (dict_get (scores g1) u 0)"
    by blast
  have r: "final_loop fq lm (uid # rest) g = Inr (g', ns1 @ ns)"
    by (simp add: fu fl)
  have e': "g' = g\<lparr>scores := scores g'\<rparr>"
  proof -
    have "g' = (g\<lparr>scores := scores g1\<rparr>)\<lparr>scores := scores g'\<rparr>"
      using e fr(1) by simp
    then show ?thesis by simp
  qed
  have ks': "\<forall>u. (map_of (scores g') u \<noteq> None) = (map_of (scores g) u \<noteq> None)"
    using ks fr(2) by simp
  have others': "\<forall>u. u \<notin> set (uid # rest) \<longrightarrow> dict_get (scores g') u 0 = dict_get (scores g) u 0"
    using others fr(3) by simp
  have mine': "\<forall>u \<in> set (uid # rest). dict_get (scores g') u 0 =
               final_score_spec fq (lm u) (dict_get (scores g) u 0)"
  proof
    fix u assume u: "u \<in> set (uid # rest)"
    show "dict_get (scores g') u 0 = final_score_spec fq (lm u) (dict_get (scores g) u 0)"
    proof (cases "u = uid")
      case True
      then show ?thesis using others nin s1 by simp
    next
      case False
      then have "u \<in> set rest" using u by simp
      then show ?thesis using mine fr(3) [OF False] by simp
    qed
  qed
  show ?case using r e' ks' others' mine' by blast
qed

lemma handle_answer_frame:
  assumes "handle_answer c2 u t g = Inr (g', ns)"
  shows "final_registered g' = final_registered g"
    and "map_of (scores g) k \<noteq> None \<Longrightarrow> map_of (scores g') k \<noteq> None"
  using assms
  by (auto simp: handle_answer_def Let_def setdefault_def update_conv'
      split: if_splits option.splits)

lemma handle_daily_double_frame:
  "final_registered (fst (handle_daily_double parts u g)) = final_registered g"
  "map_of (scores g) k \<noteq> None \<Longrightarrow> map_of (scores (fst (handle_daily_double parts u g))) k \<noteq> None"
  by (auto simp: handle_daily_double_def Let_def setdefault_def update_conv'
      split: if_splits option.splits)

lemma step_keeps_registered_have_scores:
  assumes "registered_have_scores g" and "step e g = Inr (g', ns)"
  shows "registered_have_scores g'"
proof (cases e)
  case (StartJeopardy idxs pick)
  then show ?thesis using assms
    by (auto simp: handle_start_jeopardy_def setup_board_def registered_have_scores_def Let_def
        split: if_splits)
next
  case (Choose c c' v rnd)
  then have "g' = fst (handle_choose_question c c' v rnd g)" using assms(2) by auto
  then show ?thesis using assms(1) handle_choose_question_frame [of c c' v rnd g]
    by (simp add: registered_have_scores_def)
next
  case (Buzz v t)
  then show ?thesis using assms
    by (auto simp: handle_buzz_def registered_have_scores_def split: if_splits)
next
  case (Answer c2 v t)
  then have "handle_answer c2 v t g = Inr (g', ns)" using assms(2) by simp
  from handle_answer_frame [OF this] show ?thesis using assms(1)
    by (simp add: registered_have_scores_def list_all_iff)
next
  case (DailyDouble parts v)
  then have "g' = fst (handle_daily_double parts v g)" using assms(2) by auto
  then show ?thesis using assms(1) handle_daily_double_frame [where parts = parts and u = v and g = g]
    by (simp add: registered_have_scores_def list_all_iff)
next
  case Score
  then show ?thesis using assms by (auto simp: handle_score_def)
next
  case (Register v)
  then show ?thesis using assms
    by (auto simp: handle_register_def registered_have_scores_def Let_def list_all_iff
        dict_get_def split: if_splits option.splits)
next
  case (BuzzTimeout i)
  then show ?thesis using assms
    by (auto simp: buzz_timeout_def registered_have_scores_def Let_def split: if_splits)
next
  case (FinalJeopardy fq lm)
  show ?thesis
  proof (cases "final_registered g = []")
    case True
    then show ?thesis using assms FinalJeopardy by (auto simp: start_final_jeopardy_def)
  next
    case False
    let ?g1 = "g\<lparr>current_question := Some fq\<rparr>"
    have d: "distinct (final_registered ?g1)"
      and k: "\<forall>u \<in> set (final_registered ?g1). map_of (scores ?g1) u \<noteq> None"
      using assms(1) by (simp_all add: registered_have_scores_def list_all_iff)
    from final_loop_result [OF d k, of fq lm] obtain g2 ns2 where
      fl: "final_loop fq lm (final_registered ?g1) ?g1 = Inr (g2, ns2)" and
      e: "g2 = ?g1\<lparr>scores := scores g2\<rparr>" and
      ks: "\<forall>u. (map_of (scores g2) u \<noteq> None) = (map_of (scores ?g1) u \<noteq> None)"
      by blast
    have "g' = g2\<lparr>running := False\<rparr>"
      using assms(2) FinalJeopardy False fl
      by (auto simp: start_final_jeopardy_def Let_def split: if_splits)
    moreover have "final_registered g2 = final_registered g"
      by (subst e) simp
    ultimately show ?thesis using assms(1) ks
      by (simp add: registered_have_scores_def list_all_iff)
  qed
qed

lemma reachable_registered_have_scores:
  "reachable qs cats g \<Longrightarrow> registered_have_scores g"
proof (induction rule: reachable.induct)
  case reachable_init
  show ?case by (simp add: registered_have_scores_def JeopardyGame_init_def)
next
  case (reachable_step g e g' ns)
  then show ?case using step_keeps_registered_have_scores by blast
qed

lemma descending_sorted_by_score_desc: "descending_by_score (sorted_by_score_desc xs)"
proof -
  have "sorted (map (\<lambda>x. - snd x) (sort_key (\<lambda>x. - snd x) xs))"
    by (rule sorted_sort_key)
  then show ?thesis
    by (simp add: descending_by_score_def sorted_by_score_desc_def sorted_map)
qed

lemma mset_sorted_by_score_desc: "mset (sorted_by_score_desc xs) = mset xs"
  by (simp add: sorted_by_score_desc_def)

text \<open>
  The Daily Double handler reads the wager from the first word it is given, and
  \<^verbatim>\<open>check_for_commands\<close> gives it the command word first. So a Daily Double command
  typed in the chat is never resolved: whatever follows the command word, the state stays
  as it is and the caller is told that there is no Daily Double, how to use the command,
  or that the wager is invalid.
\<close>

lemma lower_char_d: "lower_char c = CHR ''d'' \<Longrightarrow> c = CHR ''d'' \<or> c = CHR ''D''"
  by (simp add: lower_char_def split: if_splits)

lemma split_acc_first_word:
  "cur \<noteq> [] \<Longrightarrow> \<exists>w ws. split_acc cur s = (cur @ w) # ws"
proof (induction s arbitrary: cur)
  case Nil
  then show ?case by simp
next
  case (Cons c cs)
  show ?case
  proof (cases "is_space c")
    case True
    then show ?thesis using Cons.prems by simp
  next
    case False
    have "cur @ [c] \<noteq> []" by simp
    from Cons.IH [OF this] obtain w ws where "split_acc (cur @ [c]) cs = ((cur @ [c]) @ w) # ws"
      by blast
    then have "split_acc cur (c # cs) = (cur @ (c # w)) # ws"
      using False by simp
    then show ?thesis by blast
  qed
qed

lemma py_strip_first:
  assumes "\<not> is_space c"
  shows "\<exists>w'. py_strip (c # w) = c # w'"
proof -
  have "\<exists>xs. dropWhile is_space (rev w @ [c]) = xs @ [c]"
  proof (cases "\<forall>x \<in> set (rev w). is_space x")
    case True
    then have "dropWhile is_space (rev w @ [c]) = [] @ [c]"
      using assms by (simp add: dropWhile_append)
    then show ?thesis by blast
  next
    case False
    then have "dropWhile is_space (rev w @ [c]) = dropWhile is_space (rev w) @ [c]"
      by (simp add: dropWhile_append)
    then show ?thesis by blast
  qed
  then obtain xs where xs: "dropWhile is_space (rev w @ [c]) = xs @ [c]"
    by blast
  have "py_strip (c # w) = rev (dropWhile is_space (rev w @ [c]))"
    using assms by (simp add: py_strip_def)
  then have "py_strip (c # w) = c # rev xs"
    by (simp add: xs)
  then show ?thesis by blast
qed

lemma py_int_letter_d:
  assumes "c = CHR ''d'' \<or> c = CHR ''D''"
  shows "py_int (c # w) = None"
proof -
  have "\<not> is_space c" using assms by (auto simp: is_space_def)
  from py_strip_first [OF this, of w] obtain w' where "py_strip (c # w) = c # w'"
    by blast
  then show ?thesis
    using assms by (auto simp: py_int_def is_digit_def Let_def)
qed

lemma daily_double_words:
  assumes "startswith (py_lower msg) ''!dailydouble''"
  shows "\<exists>w ws. py_split (drop 1 msg) = w # ws \<and> py_int w = None"
proof -
  from assms have "take (length ''!dailydouble'') (py_lower msg) = ''!dailydouble''"
    unfolding startswith_def .
  then have "py_lower msg = ''!dailydouble'' @ drop (length ''!dailydouble'') (py_lower msg)"
    by (metis append_take_drop_id)
  then obtain r where "map lower_char msg = CHR ''!'' # CHR ''d'' # r"
    by (simp add: py_lower_def)
  then obtain m0 m1 rest where m: "msg = m0 # m1 # rest" and l: "lower_char m1 = CHR ''d''"
    by (auto simp: map_eq_Cons_conv)
  from l have d: "m1 = CHR ''d'' \<or> m1 = CHR ''D''" by (rule lower_char_d)
  then have ns: "\<not> is_space m1" by (auto simp: is_space_def)
  from split_acc_first_word [of "[m1]" rest] obtain w ws where
    "split_acc [m1] rest = ([m1] @ w) # ws" by blast
  then have "py_split (drop 1 msg) = (m1 # w) # ws"
    using m ns by (simp add: py_split_def)
  then show ?thesis using py_int_letter_d [OF d] by blast
qed

lemma daily_double_command_never_resolves:
  assumes "startswith (py_lower msg) ''!dailydouble''"
  shows "check_for_commands msg u now rnd idxs pick g \<in>
           {Inr (g, [NoActiveDailyDouble]), Inr (g, [UsageDailyDouble]), Inr (g, [InvalidWager])}"
proof -
  from assms have "take (length ''!dailydouble'') (py_lower msg) = ''!dailydouble''"
    unfolding startswith_def .
  then have "py_lower msg = ''!dailydouble'' @ drop (length ''!dailydouble'') (py_lower msg)"
    by (metis append_take_drop_id)
  then obtain r where r: "py_lower msg = ''!dailydouble'' @ r"
    by blast
  have nb: "\<not> startswith (py_lower msg) ''!startjeopardy''"
    "\<not> startswith (py_lower msg) ''!choose''"
    "\<not> startswith (py_lower msg) ''!buzz''"
    "\<not> startswith (py_lower msg) ''!answer''"
    by (simp_all add: startswith_def r)
  from daily_double_words [OF assms] obtain w ws where
    w: "py_split (drop 1 msg) = w # ws" "py_int w = None" by blast
  have "handle_daily_double (w # ws) u g \<in>
          {(g, [NoActiveDailyDouble]), (g, [UsageDailyDouble]), (g, [InvalidWager])}"
    using w(2) by (simp add: handle_daily_double_def split: option.splits)
  then show ?thesis
    using nb assms w(1) by (auto simp: check_for_commands_def Let_def)
qed

section \<open>Claims\<close>

text \<open>
  C1. After a question is chosen, the user who buzzed in answers correctly within the
  twenty seconds. The claim expects the tile to be gone from the board that is shown
  next, the score to rise by the tile's points and the answerer to become the chooser.
  Evaluated on the small game: the score is 100 and user 7 is the chooser, but the tile
  is still on the board and the board still shows it as available.
\<close>

theorem correct_answer_leaves_tile_on_board:
  "(case run [ev_start, ev_choose (1 / 2), Buzz 7 3, Answer [''answer'', ''PARIS''] 7 5]
          example_game of
      Inl e \<Rightarrow> False
    | Inr (g, ns) \<Rightarrow>
        tile \<in> set (board g) \<and>
        display_board g =
          [(''A'', [(100, False)]), (''B'', []), (''C'', []), (''D'', []), (''E'', []),
           (''F'', [])] \<and>
        last ns = BoardMsg (display_board g) \<and>
        scores g = [(7, 100)] \<and> current_chooser g = Some 7 \<and> current_question g = None)"
  by (simp add: example_defs handler_defs string_defs dict_defs Let_def)

text \<open>
  C3 as stated: a buzz in any state but the buzz-open one is rejected. It fails for a
  Daily Double: the tile is offered with the buzz window closed, and the buzz of user 8
  is accepted and locks the question.
\<close>

theorem buzz_accepted_on_daily_double:
  "reachable [tile] example_categories (state_after [ev_start, ev_choose (1 / 20)] example_game) \<and>
   current_question (state_after [ev_start, ev_choose (1 / 20)] example_game) = Some tile \<and>
   \<not> buzz_open_state (state_after [ev_start, ev_choose (1 / 20)] example_game) \<and>
   handle_buzz 8 4 (state_after [ev_start, ev_choose (1 / 20)] example_game) =
     ((state_after [ev_start, ev_choose (1 / 20)] example_game)
        \<lparr>buzzed_in := Some 8, buzzed_in_time := 4\<rparr>, [BuzzedInMsg 8])"
proof -
  have "reachable [tile] example_categories (JeopardyGame_init [tile] example_categories)"
    by (rule reachable_init)
  then have "reachable [tile] example_categories example_game"
    by (simp add: example_game_def)
  moreover have "valid_run [ev_start, ev_choose (1 / 20)] example_game"
    by (simp add: example_defs handler_defs string_defs dict_defs Let_def)
  moreover have "\<And>e. run [ev_start, ev_choose (1 / 20)] example_game \<noteq> Inl e"
    by (simp add: example_defs handler_defs string_defs dict_defs Let_def)
  ultimately have
    "reachable [tile] example_categories (state_after [ev_start, ev_choose (1 / 20)] example_game)"
    by (rule state_after_reachable)
  then show ?thesis
    by (simp add: example_defs handler_defs string_defs dict_defs substate_defs Let_def)
qed

text \<open>
  C3, amended. A buzz is accepted exactly when there is an active question and nobody is
  buzzed in, whether the buzz window is open or not: the caller becomes the buzzed-in
  user and the time of the buzz is recorded, and from then on every buzz of every user is
  rejected and leaves the state, so the lock holder, as it is. A buzz while somebody is
  buzzed in or with no active question is rejected with the state unchanged.
\<close>

theorem buzz_first_caller_wins:
  "(current_question g \<noteq> None \<and> buzzed_in g = None \<longrightarrow>
      handle_buzz u now g = (g\<lparr>buzzed_in := Some u, buzzed_in_time := now\<rparr>, [BuzzedInMsg u]) \<and>
      (\<forall>v t. handle_buzz v t (fst (handle_buzz u now g)) =
               (fst (handle_buzz u now g), [BuzzRejected]))) \<and>
   (buzzed_in g \<noteq> None \<longrightarrow> handle_buzz u now g = (g, [BuzzRejected])) \<and>
   (current_question g = None \<longrightarrow> handle_buzz u now g = (g, [BuzzRejected]))"
  by (simp add: handle_buzz_def)

theorem buzz_first_caller_wins_witness:
  "handle_buzz 7 3 (state_after [ev_start, ev_choose (1 / 2)] example_game) =
     ((state_after [ev_start, ev_choose (1 / 2)] example_game)
        \<lparr>buzzed_in := Some 7, buzzed_in_time := 3\<rparr>, [BuzzedInMsg 7]) \<and>
   handle_buzz 8 4 (fst (handle_buzz 7 3 (state_after [ev_start, ev_choose (1 / 2)] example_game))) =
     (fst (handle_buzz 7 3 (state_after [ev_start, ev_choose (1 / 2)] example_game)),
      [BuzzRejected]) \<and>
   handle_buzz 7 3 example_game = (example_game, [BuzzRejected])"
proof -
  have a: "current_question (state_after [ev_start, ev_choose (1 / 2)] example_game) \<noteq> None \<and>
           buzzed_in (state_after [ev_start, ev_choose (1 / 2)] example_game) = None"
    by (simp add: example_defs handler_defs string_defs dict_defs Let_def)
  have b: "current_question example_game = None"
    by (simp add: example_defs)
  show ?thesis
    using buzz_first_caller_wins [of "state_after [ev_start, ev_choose (1 / 2)] example_game" 7 3]
      buzz_first_caller_wins [of example_game 7 3] a b
    by blast
qed

text \<open>
  C7 as stated: an answer of the lock holder after the twenty seconds returns the engine
  to the state with no active question. On the small game the answer of user 7 comes 27
  seconds after the buzz: the lock is cleared, but the question stays active.
\<close>

theorem late_answer_keeps_question_active:
  "(case run [ev_start, ev_choose (1 / 2), Buzz 7 3, Answer [''answer'', ''Paris''] 7 30]
          example_game of
      Inl e \<Rightarrow> False
    | Inr (g, ns) \<Rightarrow>
        buzzed_in g = None \<and> current_question g = Some tile \<and> \<not> no_active_question g \<and>
        TimesUp \<in> set ns)"
  by (simp add: example_defs handler_defs string_defs dict_defs substate_defs Let_def)

text \<open>
  C7, amended. An answer of the lock holder more than twenty seconds after the buzz is
  told that the time is up and shown the board; the lock is cleared and nothing else
  changes: the scores, the board and the active question stay as they are, so that the
  question can be buzzed again.
\<close>

theorem late_answer_clears_lock_only:
  assumes "buzzed_in g = Some u" and "now - buzzed_in_time g > 20"
  shows "handle_answer command2 u now g =
           Inr (g\<lparr>buzzed_in := None\<rparr>, [TimesUp, BoardMsg (display_board g)])"
  using assms by (simp add: handle_answer_def Let_def display_board_def)

theorem late_answer_clears_lock_only_witness:
  "handle_answer [''answer'', ''Paris''] 7 30
     (state_after [ev_start, ev_choose (1 / 2), Buzz 7 3] example_game) =
   Inr ((state_after [ev_start, ev_choose (1 / 2), Buzz 7 3] example_game)\<lparr>buzzed_in := None\<rparr>,
        [TimesUp,
         BoardMsg (display_board (state_after [ev_start, ev_choose (1 / 2), Buzz 7 3] example_game))])"
proof -
  have a: "buzzed_in (state_after [ev_start, ev_choose (1 / 2), Buzz 7 3] example_game) = Some 7"
    by (simp add: example_defs handler_defs string_defs dict_defs Let_def)
  have b: "30 - buzzed_in_time (state_after [ev_start, ev_choose (1 / 2), Buzz 7 3] example_game) > 20"
    by (simp add: example_defs handler_defs string_defs dict_defs Let_def)
  show ?thesis
    by (rule late_answer_clears_lock_only [OF a b])
qed

lemma example_reachable:
  assumes "valid_run es example_game" and "\<And>e. run es example_game \<noteq> Inl e"
  shows "reachable [tile] example_categories (state_after es example_game)"
proof -
  have "reachable [tile] example_categories (JeopardyGame_init [tile] example_categories)"
    by (rule reachable_init)
  then have "reachable [tile] example_categories example_game"
    by (simp add: example_game_def)
  then show ?thesis using assms by (rule state_after_reachable)
qed

text \<open>
  C2 as stated: in every reachable state exactly one of the three alternatives holds. It
  fails after the first buzz: the question is active, user 7 is buzzed in, and the buzz
  window is still open, since a buzz does not close it.
\<close>

theorem buzz_leaves_window_open:
  "reachable [tile] example_categories
     (state_after [ev_start, ev_choose (1 / 2), Buzz 7 3] example_game) \<and>
   current_question (state_after [ev_start, ev_choose (1 / 2), Buzz 7 3] example_game) = Some tile \<and>
   buzzed_in (state_after [ev_start, ev_choose (1 / 2), Buzz 7 3] example_game) = Some 7 \<and>
   buzz_open (state_after [ev_start, ev_choose (1 / 2), Buzz 7 3] example_game) \<and>
   \<not> exactly_one_substate (state_after [ev_start, ev_choose (1 / 2), Buzz 7 3] example_game)"
proof -
  have "valid_run [ev_start, ev_choose (1 / 2), Buzz 7 3] example_game"
    by (simp add: example_defs handler_defs string_defs dict_defs Let_def)
  moreover have "\<And>e. run [ev_start, ev_choose (1 / 2), Buzz 7 3] example_game \<noteq> Inl e"
    by (simp add: example_defs handler_defs string_defs dict_defs Let_def)
  ultimately have
    "reachable [tile] example_categories
       (state_after [ev_start, ev_choose (1 / 2), Buzz 7 3] example_game)"
    by (rule example_reachable)
  then show ?thesis
    by (simp add: example_defs handler_defs string_defs dict_defs substate_defs Let_def)
qed

text \<open>
  C2, amended. In every reachable state at most one of the three alternatives holds, and
  none need hold. Posting a question while nobody is buzzed in gives the second one; a
  buzz in the second one gives an active question with a buzzed-in user and the buzz
  window still open, which is none of the three; a buzz-window timeout that takes effect
  gives the first one, with the window closed.
\<close>

theorem question_substates_at_most_one:
  assumes "reachable qs cats g"
  shows "at_most_one_substate g \<and>
    (buzzed_in g = None \<longrightarrow> buzz_open_state (fst (post_question q g))) \<and>
    (buzz_open_state g \<longrightarrow>
       current_question (fst (handle_buzz u now g)) = current_question g \<and>
       buzzed_in (fst (handle_buzz u now g)) = Some u \<and>
       buzz_open (fst (handle_buzz u now g)) \<and>
       \<not> exactly_one_substate (fst (handle_buzz u now g))) \<and>
    (\<not> truthy_user (buzzed_in g) \<and> buzz_open g \<longrightarrow>
       no_active_question (fst (buzz_timeout q g)) \<and> \<not> buzz_open (fst (buzz_timeout q g)))"
proof -
  have "at_most_one_substate g"
    by (auto simp: substate_defs)
  moreover have "buzzed_in g = None \<longrightarrow> buzz_open_state (fst (post_question q g))"
    by (simp add: post_question_def buzz_open_state_def)
  moreover have "buzz_open_state g \<longrightarrow>
       current_question (fst (handle_buzz u now g)) = current_question g \<and>
       buzzed_in (fst (handle_buzz u now g)) = Some u \<and>
       buzz_open (fst (handle_buzz u now g)) \<and>
       \<not> exactly_one_substate (fst (handle_buzz u now g))"
    by (auto simp: handle_buzz_def substate_defs)
  moreover have "\<not> truthy_user (buzzed_in g) \<and> buzz_open g \<longrightarrow>
       no_active_question (fst (buzz_timeout q g)) \<and> \<not> buzz_open (fst (buzz_timeout q g))"
    by (simp add: buzz_timeout_def no_active_question_def Let_def)
  ultimately show ?thesis by blast
qed

theorem question_substates_at_most_one_witness:
  "at_most_one_substate (state_after [ev_start, ev_choose (1 / 2)] example_game) \<and>
   buzz_open_state (fst (post_question tile (state_after [ev_start, ev_choose (1 / 2)] example_game))) \<and>
   buzzed_in (fst (handle_buzz 7 3 (state_after [ev_start, ev_choose (1 / 2)] example_game))) = Some 7 \<and>
   buzz_open (fst (handle_buzz 7 3 (state_after [ev_start, ev_choose (1 / 2)] example_game))) \<and>
   no_active_question (fst (buzz_timeout tile (state_after [ev_start, ev_choose (1 / 2)] example_game)))"
proof -
  have v: "valid_run [ev_start, ev_choose (1 / 2)] example_game"
    by (simp add: example_defs handler_defs string_defs dict_defs Let_def)
  have r: "\<And>e. run [ev_start, ev_choose (1 / 2)] example_game \<noteq> Inl e"
    by (simp add: example_defs handler_defs string_defs dict_defs Let_def)
  have a: "buzzed_in (state_after [ev_start, ev_choose (1 / 2)] example_game) = None"
    by (simp add: example_defs handler_defs string_defs dict_defs Let_def)
  have b: "buzz_open_state (state_after [ev_start, ev_choose (1 / 2)] example_game)"
    by (simp add: example_defs handler_defs string_defs dict_defs substate_defs Let_def)
  have c: "\<not> truthy_user (buzzed_in (state_after [ev_start, ev_choose (1 / 2)] example_game)) \<and>
           buzz_open (state_after [ev_start, ev_choose (1 / 2)] example_game)"
    using a b by (simp add: truthy_user_def buzz_open_state_def)
  show ?thesis
    using question_substates_at_most_one [OF example_reachable [OF v r], of tile 7 3] a b c
    by blast
qed

text \<open>
  C4 as stated: outside the offered Daily Double the Daily Double answer is rejected with
  the state unchanged. On the small game the tile is posted as a normal question (buzz
  window open, no pair ever flagged as Daily Double), and the Daily Double answer of
  user 9, who did not choose the tile, is resolved: 500 points and no active question.
\<close>

theorem daily_double_answer_on_normal_question:
  "reachable [tile] example_categories (state_after [ev_start, ev_choose (1 / 2)] example_game) \<and>
   buzz_open_state (state_after [ev_start, ev_choose (1 / 2)] example_game) \<and>
   daily_double_used (state_after [ev_start, ev_choose (1 / 2)] example_game) = {} \<and>
   scores (state_after [ev_start, ev_choose (1 / 2)] example_game) = [] \<and>
   scores (fst (handle_daily_double [''500'', ''paris''] 9
                  (state_after [ev_start, ev_choose (1 / 2)] example_game))) = [(9, 500)] \<and>
   current_question (fst (handle_daily_double [''500'', ''paris''] 9
                  (state_after [ev_start, ev_choose (1 / 2)] example_game))) = None"
proof -
  have "valid_run [ev_start, ev_choose (1 / 2)] example_game"
    by (simp add: example_defs handler_defs string_defs dict_defs Let_def)
  moreover have "\<And>e. run [ev_start, ev_choose (1 / 2)] example_game \<noteq> Inl e"
    by (simp add: example_defs handler_defs string_defs dict_defs Let_def)
  ultimately have
    "reachable [tile] example_categories (state_after [ev_start, ev_choose (1 / 2)] example_game)"
    by (rule example_reachable)
  then show ?thesis
    by (simp add: example_defs handler_defs string_defs dict_defs substate_defs Let_def)
qed

text \<open>
  C4, amended. The Daily Double answer is rejected with the state unchanged when there is
  no active question, and also on fewer than two words or a wager that is not an integer.
  With any active question, Daily Double or not, and from any caller, a well-formed call
  is resolved: it changes the score table and always clears the active question, whether
  the answer is right or wrong, and nothing else.
\<close>

theorem daily_double_answer_needs_active_question_only:
  "(current_question g = None \<longrightarrow>
      handle_daily_double parts u g = (g, [NoActiveDailyDouble])) \<and>
   (current_question g \<noteq> None \<and> (length parts < 2 \<or> py_int (parts ! 0) = None) \<longrightarrow>
      fst (handle_daily_double parts u g) = g) \<and>
   (current_question g \<noteq> None \<and> 2 \<le> length parts \<and> py_int (parts ! 0) \<noteq> None \<longrightarrow>
      current_question (fst (handle_daily_double parts u g)) = None \<and>
      fst (handle_daily_double parts u g) =
        g\<lparr>scores := scores (fst (handle_daily_double parts u g)), current_question := None\<rparr>)"
proof (intro conjI impI)
  assume "current_question g = None"
  then show "handle_daily_double parts u g = (g, [NoActiveDailyDouble])"
    by (simp add: handle_daily_double_def)
next
  assume a: "current_question g \<noteq> None \<and> (length parts < 2 \<or> py_int (parts ! 0) = None)"
  then obtain q where "current_question g = Some q" by auto
  with a show "fst (handle_daily_double parts u g) = g"
    by (auto simp: handle_daily_double_def)
next
  assume a: "current_question g \<noteq> None \<and> 2 \<le> length parts \<and> py_int (parts ! 0) \<noteq> None"
  then obtain q w where q: "current_question g = Some q" and w: "py_int (parts ! 0) = Some w"
    by auto
  from a have l: "2 \<le> length parts" by simp
  show "current_question (fst (handle_daily_double parts u g)) = None"
    by (simp add: handle_daily_double_resolved [OF q l w] Let_def)
  show "fst (handle_daily_double parts u g) =
        g\<lparr>scores := scores (fst (handle_daily_double parts u g)), current_question := None\<rparr>"
    by (simp add: handle_daily_double_resolved [OF q l w] Let_def)
qed

theorem daily_double_answer_needs_active_question_only_witness:
  "handle_daily_double [''500'', ''paris''] 7 example_game = (example_game, [NoActiveDailyDouble]) \<and>
   fst (handle_daily_double [''paris''] 7
          (state_after [ev_start, ev_choose (1 / 20)] example_game)) =
     state_after [ev_start, ev_choose (1 / 20)] example_game \<and>
   current_question (fst (handle_daily_double [''500'', ''rome''] 7
          (state_after [ev_start, ev_choose (1 / 20)] example_game))) = None"
proof -
  have a: "current_question example_game = None"
    by (simp add: example_defs)
  have b: "current_question (state_after [ev_start, ev_choose (1 / 20)] example_game) \<noteq> None"
    by (simp add: example_defs handler_defs string_defs dict_defs Let_def)
  have c: "length [''paris''] < 2" by simp
  have d: "2 \<le> length [''500'', ''rome''] \<and> py_int ([''500'', ''rome''] ! 0) \<noteq> None"
    by (simp add: string_defs)
  show ?thesis
    using daily_double_answer_needs_active_question_only [of example_game "[''500'', ''paris'']" 7]
      daily_double_answer_needs_active_question_only
        [of "state_after [ev_start, ev_choose (1 / 20)] example_game" "[''paris'']" 7]
      daily_double_answer_needs_active_question_only
        [of "state_after [ev_start, ev_choose (1 / 20)] example_game" "[''500'', ''rome'']" 7]
      a b c d
    by blast
qed

text \<open>
  C5 as stated: a wager of zero or below is rejected as invalid, with no change of score.
  On the offered Daily Double of the small game a wager of 0 with the right answer earns
  1 point, and a wager of -5 with a wrong answer costs 1 point.
\<close>

theorem nonpositive_wager_is_scored:
  "handle_daily_double [''0'', ''paris''] 7
     (state_after [ev_start, ev_choose (1 / 20)] example_game) =
   ((state_after [ev_start, ev_choose (1 / 20)] example_game)
      \<lparr>scores := [(7, 1)], current_question := None\<rparr>,
    [CorrectMsg 7 1,
     BoardMsg (display_board (state_after [ev_start, ev_choose (1 / 20)] example_game))]) \<and>
   handle_daily_double [''-5'', ''rome''] 7
     (state_after [ev_start, ev_choose (1 / 20)] example_game) =
   ((state_after [ev_start, ev_choose (1 / 20)] example_game)
      \<lparr>scores := [(7, - 1)], current_question := None\<rparr>,
    [IncorrectMsg 7 1,
     BoardMsg (display_board (state_after [ev_start, ev_choose (1 / 20)] example_game))])"
  by (simp add: example_defs handler_defs string_defs dict_defs Let_def)

text \<open>
  C5, amended. With an active question and an integer wager \<open>w\<close>, the wager that counts is
  \<open>w\<close> clamped into the range from 1 to the larger of the caller's score and the cap of
  the round, 1000 in round 1 and 2000 in any other round. A wager in the range counts as
  typed; a wager of zero or below is not rejected: it counts as 1. The caller's score
  goes up by that wager for a right answer and down by it for a wrong one.
\<close>

theorem daily_double_wager_clamped:
  assumes "current_question g = Some q" and "2 \<le> length parts"
    and "py_int (parts ! 0) = Some w"
  shows "\<exists>wager.
    wager = max 1 (min w (max (dict_get (scores g) u 0) (if round_no g = 1 then 1000 else 2000))) \<and>
    1 \<le> wager \<and>
    wager \<le> max (dict_get (scores g) u 0) (if round_no g = 1 then 1000 else 2000) \<and>
    (1 \<le> w \<and> w \<le> max (dict_get (scores g) u 0) (if round_no g = 1 then 1000 else 2000)
       \<longrightarrow> wager = w) \<and>
    (w \<le> 0 \<longrightarrow> wager = 1) \<and>
    (if py_lower (join_sp (drop 1 parts)) \<in> set (map py_lower (answers q))
     then snd (handle_daily_double parts u g) = [CorrectMsg u wager, BoardMsg (display_board g)] \<and>
          dict_get (scores (fst (handle_daily_double parts u g))) u 0 =
            dict_get (scores g) u 0 + wager
     else snd (handle_daily_double parts u g) = [IncorrectMsg u wager, BoardMsg (display_board g)] \<and>
          dict_get (scores (fst (handle_daily_double parts u g))) u 0 =
            dict_get (scores g) u 0 - wager)"
proof -
  define cap :: int where "cap = (if round_no g = 1 then 1000 else 2000)"
  define wager where "wager = max 1 (min w (max (dict_get (scores g) u 0) cap))"
  have cap: "1 \<le> cap" by (simp add: cap_def)
  have r: "1 \<le> wager" "wager \<le> max (dict_get (scores g) u 0) cap"
    "1 \<le> w \<and> w \<le> max (dict_get (scores g) u 0) cap \<longrightarrow> wager = w"
    "w \<le> 0 \<longrightarrow> wager = 1"
    using cap unfolding wager_def by linarith+
  have h: "handle_daily_double parts u g =
     (if py_lower (join_sp (drop 1 parts)) \<in> set (map py_lower (answers q))
        then (g\<lparr>scores := AList.update u (dict_get (scores g) u 0 + wager) (setdefault (scores g) u 0),
                current_question := None\<rparr>,
              [CorrectMsg u wager, BoardMsg (display_board g)])
        else (g\<lparr>scores := AList.update u (dict_get (scores g) u 0 - wager) (setdefault (scores g) u 0),
                current_question := None\<rparr>,
              [IncorrectMsg u wager, BoardMsg (display_board g)]))"
    using handle_daily_double_resolved [OF assms, of u]
    by (simp add: wager_def cap_def Let_def)
  have "(if py_lower (join_sp (drop 1 parts)) \<in> set (map py_lower (answers q))
     then snd (handle_daily_double parts u g) = [CorrectMsg u wager, BoardMsg (display_board g)] \<and>
          dict_get (scores (fst (handle_daily_double parts u g))) u 0 =
            dict_get (scores g) u 0 + wager
     else snd (handle_daily_double parts u g) = [IncorrectMsg u wager, BoardMsg (display_board g)] \<and>
          dict_get (scores (fst (handle_daily_double parts u g))) u 0 =
            dict_get (scores g) u 0 - wager)"
    by (simp add: h dict_get_update_same)
  then show ?thesis
    using r unfolding wager_def cap_def by blast
qed

theorem daily_double_wager_clamped_witness:
  "snd (handle_daily_double [''5000'', ''paris''] 7
          (state_after [ev_start, ev_choose (1 / 20)] example_game)) =
     [CorrectMsg 7 1000,
      BoardMsg (display_board (state_after [ev_start, ev_choose (1 / 20)] example_game))] \<and>
   dict_get (scores (fst (handle_daily_double [''5000'', ''paris''] 7
          (state_after [ev_start, ev_choose (1 / 20)] example_game)))) 7 0 = 1000"
proof -
  have a: "current_question (state_after [ev_start, ev_choose (1 / 20)] example_game) = Some tile"
    by (simp add: example_defs handler_defs string_defs dict_defs Let_def)
  have b: "2 \<le> length [''5000'', ''paris'']" by simp
  have c: "py_int ([''5000'', ''paris''] ! 0) = Some 5000"
    by (simp add: string_defs)
  have d: "py_lower (join_sp (drop 1 [''5000'', ''paris''])) \<in> set (map py_lower (answers tile))"
    by (simp add: string_defs tile_def)
  have e: "dict_get (scores (state_after [ev_start, ev_choose (1 / 20)] example_game)) 7 0 = 0"
    by (simp add: example_defs handler_defs string_defs dict_defs Let_def)
  have f: "round_no (state_after [ev_start, ev_choose (1 / 20)] example_game) = 1"
    by (simp add: example_defs handler_defs string_defs dict_defs Let_def)
  show ?thesis
    using daily_double_wager_clamped [OF a b c, of 7] d e f
    by simp
qed

text \<open>
  C6 as stated: while no game is running every operation is rejected and changes
  nothing. On the small game user 7 wins the tile, registers, and the final round ends
  the game, leaving its question as the current one. In that state, with no game
  running, a late answer of user 7 clears the lock, the buzz of user 8 is accepted, the
  answer of user 8 is scored, and user 8 registers.
\<close>

theorem operations_accepted_after_game_end:
  "reachable [tile] example_categories
     (state_after [ev_start, ev_choose (1 / 2), Buzz 7 3, Answer [''answer'', ''Paris''] 7 5,
                   Register 7, FinalJeopardy tile (\<lambda>u. [])] example_game) \<and>
   \<not> running
     (state_after [ev_start, ev_choose (1 / 2), Buzz 7 3, Answer [''answer'', ''Paris''] 7 5,
                   Register 7, FinalJeopardy tile (\<lambda>u. [])] example_game) \<and>
   run [Answer [''answer'', ''Rome''] 7 100, Buzz 8 101, Answer [''answer'', ''Paris''] 8 102,
        Register 8]
     (state_after [ev_start, ev_choose (1 / 2), Buzz 7 3, Answer [''answer'', ''Paris''] 7 5,
                   Register 7, FinalJeopardy tile (\<lambda>u. [])] example_game) =
   Inr ((state_after [ev_start, ev_choose (1 / 2), Buzz 7 3, Answer [''answer'', ''Paris''] 7 5,
                      Register 7, FinalJeopardy tile (\<lambda>u. [])] example_game)
          \<lparr>scores := [(7, 100), (8, 100)], final_registered := [7, 8],
            buzzed_in := Some 8, buzzed_in_time := 101, current_question := None,
            current_chooser := Some 8\<rparr>,
        [TimesUp, BoardMsg [(''A'', [(100, False)]), (''B'', []), (''C'', []), (''D'', []),
                            (''E'', []), (''F'', [])],
         BuzzedInMsg 8,
         CorrectMsg 8 100,
         BoardMsg [(''A'', [(100, False)]), (''B'', []), (''C'', []), (''D'', []),
                   (''E'', []), (''F'', [])],
         RegisteredMsg 100])"
proof -
  have "valid_run [ev_start, ev_choose (1 / 2), Buzz 7 3, Answer [''answer'', ''Paris''] 7 5,
                   Register 7, FinalJeopardy tile (\<lambda>u. [])] example_game"
    by (simp add: example_defs handler_defs string_defs dict_defs Let_def)
  moreover have "\<And>e. run [ev_start, ev_choose (1 / 2), Buzz 7 3, Answer [''answer'', ''Paris''] 7 5,
                   Register 7, FinalJeopardy tile (\<lambda>u. [])] example_game \<noteq> Inl e"
    by (simp add: example_defs handler_defs string_defs dict_defs Let_def)
  ultimately have "reachable [tile] example_categories
     (state_after [ev_start, ev_choose (1 / 2), Buzz 7 3, Answer [''answer'', ''Paris''] 7 5,
                   Register 7, FinalJeopardy tile (\<lambda>u. [])] example_game)"
    by (rule example_reachable)
  then show ?thesis
    by (simp add: example_defs handler_defs string_defs dict_defs Let_def)
qed

text \<open>
  C6, amended. Choosing a question checks first that a game is running: with no game
  running it is rejected with the notice that no game is running, and the state is
  unchanged. Buzz, answer, Daily Double answer and registration never read the running
  flag: their outcome is the same whether a game is running or not. Before the first
  game is started each of the four is rejected by its own test, with one notice and the
  state unchanged.
\<close>

theorem only_choose_checks_running:
  "(\<not> running g \<longrightarrow>
      handle_choose_question command command2 u rnd g = (g, [NoGameRunning])) \<and>
   handle_buzz u now (g\<lparr>running := b\<rparr>) = with_running b (handle_buzz u now g) \<and>
   handle_answer command2 u now (g\<lparr>running := b\<rparr>) =
     map_sum id (with_running b) (handle_answer command2 u now g) \<and>
   handle_daily_double parts u (g\<lparr>running := b\<rparr>) =
     with_running b (handle_daily_double parts u g) \<and>
   handle_register u (g\<lparr>running := b\<rparr>) = with_running b (handle_register u g) \<and>
   handle_buzz u now (JeopardyGame_init qs cats) = (JeopardyGame_init qs cats, [BuzzRejected]) \<and>
   handle_answer command2 u now (JeopardyGame_init qs cats) =
     Inr (JeopardyGame_init qs cats, [DidntBuzz]) \<and>
   handle_daily_double parts u (JeopardyGame_init qs cats) =
     (JeopardyGame_init qs cats, [NoActiveDailyDouble]) \<and>
   handle_register u (JeopardyGame_init qs cats) = (JeopardyGame_init qs cats, [NeedOneDollar])"
proof -
  have c: "\<not> running g \<longrightarrow>
      handle_choose_question command command2 u rnd g = (g, [NoGameRunning])"
    by (simp add: handle_choose_question_def)
  have bz: "handle_buzz u now (g\<lparr>running := b\<rparr>) = with_running b (handle_buzz u now g)"
    by (simp add: handle_buzz_def with_running_def)
  have an: "handle_answer command2 u now (g\<lparr>running := b\<rparr>) =
     map_sum id (with_running b) (handle_answer command2 u now g)"
    by (simp add: handle_answer_def with_running_def display_board_def Let_def
        split: option.splits)
  have dd: "handle_daily_double parts u (g\<lparr>running := b\<rparr>) =
     with_running b (handle_daily_double parts u g)"
    by (simp add: handle_daily_double_def with_running_def display_board_def Let_def
        split: option.splits)
  have rg: "handle_register u (g\<lparr>running := b\<rparr>) = with_running b (handle_register u g)"
    by (simp add: handle_register_def with_running_def Let_def)
  have i1: "handle_buzz u now (JeopardyGame_init qs cats) = (JeopardyGame_init qs cats, [BuzzRejected])"
    by (simp add: handle_buzz_def JeopardyGame_init_def)
  have i2: "handle_answer command2 u now (JeopardyGame_init qs cats) =
     Inr (JeopardyGame_init qs cats, [DidntBuzz])"
    by (simp add: handle_answer_def JeopardyGame_init_def)
  have i3: "handle_daily_double parts u (JeopardyGame_init qs cats) =
     (JeopardyGame_init qs cats, [NoActiveDailyDouble])"
    by (simp add: handle_daily_double_def JeopardyGame_init_def)
  have i4: "handle_register u (JeopardyGame_init qs cats) = (JeopardyGame_init qs cats, [NeedOneDollar])"
    by (simp add: handle_register_def JeopardyGame_init_def dict_get_def)
  show ?thesis
    using c bz an dd rg i1 i2 i3 i4 by blast
qed

theorem only_choose_checks_running_witness:
  "handle_choose_question [''choose'', ''100'', ''a''] [''choose'', ''100'', ''A''] 7 (1 / 2)
     example_game = (example_game, [NoGameRunning]) \<and>
   handle_buzz 7 3 example_game = (example_game, [BuzzRejected]) \<and>
   handle_register 7 example_game = (example_game, [NeedOneDollar])"
proof -
  have a: "\<not> running example_game"
    by (simp add: example_defs)
  show ?thesis
    using only_choose_checks_running
      [of example_game "[''choose'', ''100'', ''a'']" "[''choose'', ''100'', ''A'']" 7 "1 / 2"
          3 False "[''50'', ''x'']" "[tile]" example_categories] a
    by (simp add: example_game_def)
qed

text \<open>
  C9. A new game is expected to make every pair eligible for the Daily Double again. On
  the small game the pair (A, 100) is flagged in the first game; user 7 buzzes, answers
  and registers, the final round ends that game and a second game is started. The score
  table is empty again, but the pair is still in the set of used pairs, and choosing it
  with a draw below 0.1 posts it as a normal question.
\<close>

theorem daily_double_used_survives_new_game:
  "(case run [ev_start, ev_choose (1 / 20), Buzz 7 3, Answer [''answer'', ''Paris''] 7 5,
             Register 7, FinalJeopardy tile (\<lambda>u. []), ev_start] example_game of
      Inl e \<Rightarrow> False
    | Inr (g, ns) \<Rightarrow>
        DailyDoubleMsg \<in> set ns \<and> running g \<and> scores g = [] \<and> tile \<in> set (board g) \<and>
        (''A'', 100) \<in> daily_double_used g \<and>
        step (ev_choose (1 / 20)) g = Inr (post_question tile g) \<and>
        snd (post_question tile g) = [QuestionMsg tile])"
  by (simp add: example_defs handler_defs string_defs dict_defs Let_def)

text \<open>
  C10 as stated: after any correct answer every buzz for the next chosen question is
  rejected. It fails when the answerer sends a late answer in between: on the small game
  user 7 answers correctly, answers once more 27 seconds after the buzz, which clears the
  lock, and chooses the tile again; the buzz of user 8 is accepted.
\<close>

theorem late_answer_reopens_buzzing:
  "(case run [ev_start, ev_choose (1 / 2), Buzz 7 3, Answer [''answer'', ''Paris''] 7 5,
             Answer [''answer'', ''Paris''] 7 30, ev_choose (1 / 2)] example_game of
      Inl e \<Rightarrow> False
    | Inr (g, ns) \<Rightarrow>
        CorrectMsg 7 100 \<in> set ns \<and> last ns = QuestionMsg tile \<and>
        current_question g = Some tile \<and>
        handle_buzz 8 31 g = (g\<lparr>buzzed_in := Some 8, buzzed_in_time := 31\<rparr>, [BuzzedInMsg 8]))"
  by (simp add: example_defs handler_defs string_defs dict_defs Let_def)

text \<open>
  C10, amended. Posting a question empties the buzz list and opens the buzz window and
  leaves the buzzed-in user as it is. A correct answer of user \<open>u\<close> leaves \<open>u\<close> buzzed
  in. So when the next question is chosen in the state the correct answer has left, with
  nothing in between that clears the lock: every buzz of every user is rejected, while
  an answer of \<open>u\<close> is never turned away for not having buzzed, and within twenty seconds
  of the old buzz a right answer to the new question is scored for \<open>u\<close>.
\<close>

theorem stale_lock_blocks_next_question:
  assumes "buzzed_in g = Some u" and "\<not> now - buzzed_in_time g > 20"
    and "current_question g = Some q"
    and "py_lower (join_sp (drop 1 command2)) \<in> set (map py_lower (answers q))"
  shows "\<exists>g1 ns1.
    handle_answer command2 u now g = Inr (g1, ns1) \<and>
    buzzed_in g1 = Some u \<and>
    buzzed (fst (post_question q' g1)) = [] \<and>
    buzz_open (fst (post_question q' g1)) \<and>
    buzzed_in (fst (post_question q' g1)) = buzzed_in g1 \<and>
    (\<forall>c c' v rnd w t. 
       handle_buzz w t (fst (handle_choose_question c c' v rnd g1)) =
         (fst (handle_choose_question c c' v rnd g1), [BuzzRejected])) \<and>
    (\<forall>c c' v rnd a t.
       handle_answer a u t (fst (handle_choose_question c c' v rnd g1)) \<noteq>
         Inr (fst (handle_choose_question c c' v rnd g1), [DidntBuzz])) \<and>
    (\<forall>c c' v rnd a t q2.
       current_question (fst (handle_choose_question c c' v rnd g1)) = Some q2 \<and>
       \<not> t - buzzed_in_time g > 20 \<and>
       py_lower (join_sp (drop 1 a)) \<in> set (map py_lower (answers q2)) \<longrightarrow>
       (\<exists>g3 ns3.
          handle_answer a u t (fst (handle_choose_question c c' v rnd g1)) =
            Inr (g3, CorrectMsg u (points q2) # ns3) \<and>
          dict_get (scores g3) u 0 = dict_get (scores g1) u 0 + points q2))"
proof -
  define g1 where
    "g1 = g\<lparr>scores := AList.update u (dict_get (scores g) u 0 + points q)
                                (setdefault (scores g) u 0),
             current_chooser := Some u, current_question := None\<rparr>"
  have h: "handle_answer command2 u now g =
             Inr (g1, [CorrectMsg u (points q), BoardMsg (display_board g)])"
    unfolding g1_def using assms by (rule handle_answer_correct)
  have b1: "buzzed_in g1 = Some u" and t1: "buzzed_in_time g1 = buzzed_in_time g"
    using assms(1) by (simp_all add: g1_def)
  have p: "buzzed (fst (post_question q' g1)) = [] \<and> buzz_open (fst (post_question q' g1)) \<and>
           buzzed_in (fst (post_question q' g1)) = buzzed_in g1"
    by (simp add: post_question_def)
  have bz: "handle_buzz w t (fst (handle_choose_question c c' v rnd g1)) =
         (fst (handle_choose_question c c' v rnd g1), [BuzzRejected])" for c c' v rnd w t
    using handle_choose_question_frame [of c c' v rnd g1] b1 by (simp add: handle_buzz_def)
  have an: "handle_answer a u t (fst (handle_choose_question c c' v rnd g1)) \<noteq>
         Inr (fst (handle_choose_question c c' v rnd g1), [DidntBuzz])" for c c' v rnd a t
    using handle_choose_question_frame [of c c' v rnd g1] b1
    by (auto simp: handle_answer_def Let_def split: option.splits)
  have sc: "\<exists>g3 ns3.
          handle_answer a u t (fst (handle_choose_question c c' v rnd g1)) =
            Inr (g3, CorrectMsg u (points q2) # ns3) \<and>
          dict_get (scores g3) u 0 = dict_get (scores g1) u 0 + points q2"
    if "current_question (fst (handle_choose_question c c' v rnd g1)) = Some q2"
      and "\<not> t - buzzed_in_time g > 20"
      and "py_lower (join_sp (drop 1 a)) \<in> set (map py_lower (answers q2))"
    for c c' v rnd a t q2
  proof -
    let ?g2 = "fst (handle_choose_question c c' v rnd g1)"
    have f: "buzzed_in ?g2 = Some u" "buzzed_in_time ?g2 = buzzed_in_time g" "scores ?g2 = scores g1"
      using handle_choose_question_frame [of c c' v rnd g1] b1 t1 by simp_all
    have "\<not> t - buzzed_in_time ?g2 > 20" using that(2) f(2) by simp
    from handle_answer_correct [OF f(1) this that(1) that(3)]
    show ?thesis by (simp add: dict_get_update_same f(3))
  qed
  show ?thesis
    apply (rule exI [of _ g1])
    apply (rule exI [of _ "[CorrectMsg u (points q), BoardMsg (display_board g)]"])
    apply (intro conjI allI impI)
    subgoal by (rule h)
    subgoal by (rule b1)
    subgoal using p by simp
    subgoal using p by simp
    subgoal using p by simp
    subgoal by (rule bz)
    subgoal by (rule an)
    subgoal for c c' v rnd a t q2 using sc [of c c' v rnd q2 t a] by simp
    done
qed

theorem stale_lock_blocks_next_question_witness:
  "\<exists>g1 ns1.
     handle_answer [''answer'', ''PARIS''] 7 5
       (state_after [ev_start, ev_choose (1 / 2), Buzz 7 3] example_game) = Inr (g1, ns1) \<and>
     buzzed_in g1 = Some 7 \<and>
     buzzed_in (fst (post_question tile g1)) = Some 7 \<and>
     handle_buzz 8 6
       (fst (handle_choose_question [''choose'', ''100'', ''a''] [''choose'', ''100'', ''A''] 8 (1 / 2) g1)) =
       (fst (handle_choose_question [''choose'', ''100'', ''a''] [''choose'', ''100'', ''A''] 8 (1 / 2) g1),
        [BuzzRejected])"
proof -
  have a: "buzzed_in (state_after [ev_start, ev_choose (1 / 2), Buzz 7 3] example_game) = Some 7"
    by (simp add: example_defs handler_defs string_defs dict_defs Let_def)
  have b: "\<not> 5 - buzzed_in_time (state_after [ev_start, ev_choose (1 / 2), Buzz 7 3] example_game) > 20"
    by (simp add: example_defs handler_defs string_defs dict_defs Let_def)
  have c: "current_question (state_after [ev_start, ev_choose (1 / 2), Buzz 7 3] example_game) = Some tile"
    by (simp add: example_defs handler_defs string_defs dict_defs Let_def)
  have d: "py_lower (join_sp (drop 1 [''answer'', ''PARIS''])) \<in> set (map py_lower (answers tile))"
    by (simp add: string_defs tile_def)
  show ?thesis
    using stale_lock_blocks_next_question [OF a b c d, of tile] by metis
qed

text \<open>
  C8 as stated: after the final round the table of scores is published and the game is
  no longer running. It fails when nobody has registered: on the small game, right after
  the start, the final round sends the notice that nobody registered and returns; no
  table is sent and the game is still running.
\<close>

theorem final_round_without_registration:
  "reachable [tile] example_categories (state_after [ev_start] example_game) \<and>
   running (state_after [ev_start] example_game) \<and>
   start_final_jeopardy tile (\<lambda>u. []) (state_after [ev_start] example_game) =
     Inr (state_after [ev_start] example_game, [FinalStarting, NoOneRegistered])"
proof -
  have "valid_run [ev_start] example_game"
    by (simp add: example_defs handler_defs string_defs dict_defs Let_def)
  moreover have "\<And>e. run [ev_start] example_game \<noteq> Inl e"
    by (simp add: example_defs handler_defs string_defs dict_defs Let_def)
  ultimately have "reachable [tile] example_categories (state_after [ev_start] example_game)"
    by (rule example_reachable)
  then show ?thesis
    by (simp add: example_defs handler_defs string_defs dict_defs Let_def)
qed

text \<open>
  C8, amended. The final round is run in a reachable state, on replies and accepted
  answers in ASCII. With nobody registered it sends the notice that nobody registered
  and no table of scores. With at least one registered user it ends without an
  exception, and for every registered user the score afterwards is the one the
  specification gives. A last message that does not start with the command, has fewer
  than three words, or whose second word is not an integer or is not above zero, leaves
  the score as it was. Any other reply is scored with the wager typed, or with the
  user's score when the wager exceeds it: credited for a right answer, debited for a
  wrong one. The last message sent is the table of all scores in descending order of
  score, and the game is no longer running.
\<close>

theorem final_round_scoring:
  assumes "reachable qs cats g" and "final_q \<in> set (questions g)"
    and "\<forall>u \<in> set (final_registered g). ascii_string (last_message u)"
    and "list_all ascii_string (answers final_q)"
  shows
   "(final_registered g = [] \<longrightarrow>
       (\<exists>g'. start_final_jeopardy final_q last_message g =
                Inr (g', [FinalStarting, NoOneRegistered]))) \<and>
    (final_registered g \<noteq> [] \<longrightarrow>
       (\<exists>g' ns.
          start_final_jeopardy final_q last_message g = Inr (g', ns) \<and>
          \<not> running g' \<and>
          last ns = FinalScores (sorted_by_score_desc (scores g')) \<and>
          descending_by_score (sorted_by_score_desc (scores g')) \<and>
          mset (sorted_by_score_desc (scores g')) = mset (scores g') \<and>
          (\<forall>u \<in> set (final_registered g).
             dict_get (scores g') u 0 =
               final_score_spec final_q (last_message u) (dict_get (scores g) u 0) \<and>
             (\<not> startswith (last_message u) ''!finaljeopardy'' \<longrightarrow>
                dict_get (scores g') u 0 = dict_get (scores g) u 0) \<and>
             (length (py_split (last_message u)) < 3 \<longrightarrow>
                dict_get (scores g') u 0 = dict_get (scores g) u 0) \<and>
             (py_int (py_split (last_message u) ! 1) = None \<longrightarrow>
                dict_get (scores g') u 0 = dict_get (scores g) u 0) \<and>
             (\<forall>w. py_int (py_split (last_message u) ! 1) = Some w \<and> w \<le> 0 \<longrightarrow>
                dict_get (scores g') u 0 = dict_get (scores g) u 0) \<and>
             (\<forall>w. startswith (last_message u) ''!finaljeopardy'' \<and>
                  3 \<le> length (py_split (last_message u)) \<and>
                  py_int (py_split (last_message u) ! 1) = Some w \<and> 0 < w \<longrightarrow>
                dict_get (scores g') u 0 =
                  (if py_lower (join_sp (drop 2 (py_split (last_message u))))
                        \<in> set (map py_lower (answers final_q))
                   then dict_get (scores g) u 0 +
                          (if w > dict_get (scores g) u 0 then dict_get (scores g) u 0 else w)
                   else dict_get (scores g) u 0 -
                          (if w > dict_get (scores g) u 0 then dict_get (scores g) u 0 else w))))))"
proof (intro conjI impI)
  assume "final_registered g = []"
  then show "\<exists>g'. start_final_jeopardy final_q last_message g =
                Inr (g', [FinalStarting, NoOneRegistered])"
    by (simp add: start_final_jeopardy_def)
next
  assume ne: "final_registered g \<noteq> []"
  let ?g1 = "g\<lparr>current_question := Some final_q\<rparr>"
  have inv: "registered_have_scores g"
    using assms(1) by (rule reachable_registered_have_scores)
  have d: "distinct (final_registered ?g1)"
    and k: "\<forall>u \<in> set (final_registered ?g1). map_of (scores ?g1) u \<noteq> None"
    using inv by (simp_all add: registered_have_scores_def list_all_iff)
  from final_loop_result [OF d k, of final_q last_message] obtain g2 ns2 where
    fl: "final_loop final_q last_message (final_registered ?g1) ?g1 = Inr (g2, ns2)" and
    mine: "\<forall>u \<in> set (final_registered ?g1). dict_get (scores g2) u 0 =
               final_score_spec final_q (last_message u) (dict_get (scores ?g1) u 0)"
    by blast
  have q: "questions g \<noteq> []" using assms(2) by auto
  define ns where "ns = [FinalStarting]
                    @ map (\<lambda>uid. FinalQuestionMsg uid final_q) (final_registered ?g1)
                    @ ns2
                    @ [FinalScores (sorted_by_score_desc (scores g2))]"
  have r: "start_final_jeopardy final_q last_message g = Inr (g2\<lparr>running := False\<rparr>, ns)"
    using ne q fl by (simp add: start_final_jeopardy_def Let_def ns_def)
  have l: "last ns = FinalScores (sorted_by_score_desc (scores (g2\<lparr>running := False\<rparr>)))"
    by (simp add: ns_def)
  have m: "dict_get (scores (g2\<lparr>running := False\<rparr>)) u 0 =
             final_score_spec final_q (last_message u) (dict_get (scores g) u 0)"
    if "u \<in> set (final_registered g)" for u
    using mine that by simp
  show "\<exists>g' ns.
          start_final_jeopardy final_q last_message g = Inr (g', ns) \<and>
          \<not> running g' \<and>
          last ns = FinalScores (sorted_by_score_desc (scores g')) \<and>
          descending_by_score (sorted_by_score_desc (scores g')) \<and>
          mset (sorted_by_score_desc (scores g')) = mset (scores g') \<and>
          (\<forall>u \<in> set (final_registered g).
             dict_get (scores g') u 0 =
               final_score_spec final_q (last_message u) (dict_get (scores g) u 0) \<and>
             (\<not> startswith (last_message u) ''!finaljeopardy'' \<longrightarrow>
                dict_get (scores g') u 0 = dict_get (scores g) u 0) \<and>
             (length (py_split (last_message u)) < 3 \<longrightarrow>
                dict_get (scores g') u 0 = dict_get (scores g) u 0) \<and>
             (py_int (py_split (last_message u) ! 1) = None \<longrightarrow>
                dict_get (scores g') u 0 = dict_get (scores g) u 0) \<and>
             (\<forall>w. py_int (py_split (last_message u) ! 1) = Some w \<and> w \<le> 0 \<longrightarrow>
                dict_get (scores g') u 0 = dict_get (scores g) u 0) \<and>
             (\<forall>w. startswith (last_message u) ''!finaljeopardy'' \<and>
                  3 \<le> length (py_split (last_message u)) \<and>
                  py_int (py_split (last_message u) ! 1) = Some w \<and> 0 < w \<longrightarrow>
                dict_get (scores g') u 0 =
                  (if py_lower (join_sp (drop 2 (py_split (last_message u))))
                        \<in> set (map py_lower (answers final_q))
                   then dict_get (scores g) u 0 +
                          (if w > dict_get (scores g) u 0 then dict_get (scores g) u 0 else w)
                   else dict_get (scores g) u 0 -
                          (if w > dict_get (scores g) u 0 then dict_get (scores g) u 0 else w))))"
    apply (rule exI [of _ "g2\<lparr>running := False\<rparr>"])
    apply (rule exI [of _ ns])
    apply (intro conjI ballI allI impI)
    subgoal by (rule r)
    subgoal by simp
    subgoal by (rule l)
    subgoal by (rule descending_sorted_by_score_desc)
    subgoal by (rule mset_sorted_by_score_desc)
    subgoal for u by (rule m)
    subgoal for u using m [of u]
      by (simp add: final_score_spec_def well_formed_wager_def)
    subgoal for u using m [of u]
      by (simp add: final_score_spec_def well_formed_wager_def)
    subgoal for u using m [of u]
      by (simp add: final_score_spec_def well_formed_wager_def)
    subgoal for u w using m [of u]
      by (simp add: final_score_spec_def well_formed_wager_def)
    subgoal for u w using m [of u]
      by (simp add: final_score_spec_def well_formed_wager_def Let_def)
    done
qed

theorem final_round_scoring_witness:
  "(\<exists>g' ns.
      start_final_jeopardy tile (\<lambda>u. ''!finaljeopardy 300 Paris'')
        (state_after [ev_start, ev_choose (1 / 2), Buzz 7 3, Answer [''answer'', ''Paris''] 7 5,
                      Register 7] example_game) = Inr (g', ns) \<and>
      \<not> running g' \<and>
      last ns = FinalScores (sorted_by_score_desc (scores g')) \<and>
      descending_by_score (sorted_by_score_desc (scores g')) \<and>
      dict_get (scores g') 7 0 = 200) \<and>
   (\<exists>g' ns.
      start_final_jeopardy tile (\<lambda>u. ''finaljeopardy 300 Paris'')
        (state_after [ev_start, ev_choose (1 / 2), Buzz 7 3, Answer [''answer'', ''Paris''] 7 5,
                      Register 7] example_game) = Inr (g', ns) \<and>
      \<not> running g' \<and>
      dict_get (scores g') 7 0 = 100)"
proof -
  let ?es = "[ev_start, ev_choose (1 / 2), Buzz 7 3, Answer [''answer'', ''Paris''] 7 5, Register 7]"
  have v: "valid_run ?es example_game"
    by (simp add: example_defs handler_defs string_defs dict_defs Let_def)
  have r: "\<And>e. run ?es example_game \<noteq> Inl e"
    by (simp add: example_defs handler_defs string_defs dict_defs Let_def)
  have reg: "final_registered (state_after ?es example_game) = [7]"
    by (simp add: example_defs handler_defs string_defs dict_defs Let_def)
  have q: "tile \<in> set (questions (state_after ?es example_game))"
    by (simp add: example_defs handler_defs string_defs dict_defs Let_def)
  have sc: "dict_get (scores (state_after ?es example_game)) 7 0 = 100"
    by (simp add: example_defs handler_defs string_defs dict_defs Let_def)
  have fs: "final_score_spec tile ''!finaljeopardy 300 Paris'' 100 = 200"
    by (simp add: final_score_spec_def well_formed_wager_def string_defs tile_def Let_def)
  have a1: "\<forall>u \<in> set (final_registered (state_after ?es example_game)).
              ascii_string ((\<lambda>u. ''!finaljeopardy 300 Paris'') u)"
    by (simp add: ascii_string_def)
  have a2: "\<forall>u \<in> set (final_registered (state_after ?es example_game)).
              ascii_string ((\<lambda>u. ''finaljeopardy 300 Paris'') u)"
    by (simp add: ascii_string_def)
  have a3: "list_all ascii_string (answers tile)"
    by (simp add: ascii_string_def tile_def)
  have ne: "final_registered (state_after ?es example_game) \<noteq> []"
    using reg by simp
  have np: "\<not> startswith ''finaljeopardy 300 Paris'' ''!finaljeopardy''"
    by (simp add: startswith_def)
  from final_round_scoring [OF example_reachable [OF v r] q a1 a3] ne
  obtain g' ns where
    a: "start_final_jeopardy tile (\<lambda>u. ''!finaljeopardy 300 Paris'')
          (state_after ?es example_game) = Inr (g', ns)"
    and b: "\<not> running g'"
    and c: "last ns = FinalScores (sorted_by_score_desc (scores g'))"
    and d: "descending_by_score (sorted_by_score_desc (scores g'))"
    and e: "\<forall>u \<in> set (final_registered (state_after ?es example_game)).
              dict_get (scores g') u 0 =
                final_score_spec tile ''!finaljeopardy 300 Paris''
                  (dict_get (scores (state_after ?es example_game)) u 0)"
    by blast
  have "dict_get (scores g') 7 0 = 200"
    using e reg sc fs by simp
  then have first: "\<exists>g' ns.
      start_final_jeopardy tile (\<lambda>u. ''!finaljeopardy 300 Paris'')
        (state_after ?es example_game) = Inr (g', ns) \<and>
      \<not> running g' \<and>
      last ns = FinalScores (sorted_by_score_desc (scores g')) \<and>
      descending_by_score (sorted_by_score_desc (scores g')) \<and>
      dict_get (scores g') 7 0 = 200"
    using a b c d by blast
  from final_round_scoring [OF example_reachable [OF v r] q a2 a3] ne
  obtain h' ms where
    a': "start_final_jeopardy tile (\<lambda>u. ''finaljeopardy 300 Paris'')
          (state_after ?es example_game) = Inr (h', ms)"
    and b': "\<not> running h'"
    and e': "\<forall>u \<in> set (final_registered (state_after ?es example_game)).
              \<not> startswith ''finaljeopardy 300 Paris'' ''!finaljeopardy'' \<longrightarrow>
              dict_get (scores h') u 0 = dict_get (scores (state_after ?es example_game)) u 0"
    by blast
  have "dict_get (scores h') 7 0 = 100"
    using e' reg sc np by simp
  then have second: "\<exists>g' ns.
      start_final_jeopardy tile (\<lambda>u. ''finaljeopardy 300 Paris'')
        (state_after ?es example_game) = Inr (g', ns) \<and>
      \<not> running g' \<and>
      dict_get (scores g') 7 0 = 100"
    using a' b' by blast
  show ?thesis using first second by blast
qed

end
